theory Spec2Isabelle
  imports Main "HOL-Library.Word"
begin

unbundle bit_operations_syntax

section \<open>The Android pipe device: hw/misc/android\_pipe.c\<close>

text \<open>
  The device keeps its channels (\<open>HwPipe\<close> objects) in heap memory and refers to them
  from four places: the traversal list (\<open>pipes\<close>, linked through \<open>next\<close>), the saved
  list head (\<open>save_pipes\<close>), the two fast-path slots (\<open>cache_pipe\<close>,
  \<open>cache_pipe_64bit\<close>) and the hash table \<open>pipes_by_channel\<close>. The model therefore
  keeps an explicit store of \<open>HwPipe\<close> objects, indexed by address; a C pointer is an
  \<open>option\<close> of an address, \<open>None\<close> being \<open>NULL\<close>.

  The model is sequential: one MMIO access or one host callback runs to its end before
  the next starts, so the two mutexes of the source have no counterpart.
\<close>

subsection \<open>Constants of hw/misc/android\_pipe.h\<close>

text \<open>
  The header with the numeric values of the command codes, error codes, wake flags and
  register offsets is not part of the sources at hand. The names are kept as
  constructors; their values are parameters of the model (the fields \<open>cmd_code\<close>,
  \<open>err_code\<close>, \<open>wake_flag\<close> and \<open>reg_offset\<close> below).
\<close>

datatype pipe_cmd =
  PIPE_CMD_OPEN | PIPE_CMD_CLOSE | PIPE_CMD_POLL | PIPE_CMD_WRITE_BUFFER
| PIPE_CMD_WAKE_ON_WRITE | PIPE_CMD_READ_BUFFER | PIPE_CMD_WAKE_ON_READ

datatype pipe_error =
  PIPE_ERROR_INVAL | PIPE_ERROR_AGAIN | PIPE_ERROR_NOMEM | PIPE_ERROR_IO

datatype pipe_wake = PIPE_WAKE_CLOSED | PIPE_WAKE_READ | PIPE_WAKE_WRITE

datatype pipe_reg =
  PIPE_REG_COMMAND | PIPE_REG_STATUS | PIPE_REG_CHANNEL | PIPE_REG_CHANNEL_HIGH
| PIPE_REG_SIZE | PIPE_REG_ADDRESS | PIPE_REG_ADDRESS_HIGH | PIPE_REG_WAKES
| PIPE_REG_PARAMS_ADDR_LOW | PIPE_REG_PARAMS_ADDR_HIGH | PIPE_REG_ACCESS_PARAMS
| PIPE_REG_VERSION

subsection \<open>Data\<close>

type_synonym ref = nat \<comment> \<open>the address of a \<open>HwPipe\<close>\<close>
type_synonym handle = nat \<comment> \<open>the \<open>void*\<close> of a service pipe\<close>
type_synonym hostptr = nat \<comment> \<open>a host pointer to mapped guest memory\<close>

text \<open>\<open>struct HwPipe\<close>, without its back link to the device and its mutex.\<close>

record HwPipe =
  "next" :: "ref option"
  channel :: "64 word"
  wanted :: "8 word"
  closed :: "8 word"
  pipe :: handle

type_synonym pipe_heap = "ref \<rightharpoonup> HwPipe"

record AndroidPipeBuffer =
  data :: hostptr
  size_buf :: "64 word"

text \<open>
  Modelled from the spec: \<open>union access_params\<close> of hw/misc/android\_pipe.h, the
  packed parameter struct in its 32-bit shape (\<open>'a = 32 word\<close>) and its 64-bit
  shape (\<open>'a = 64 word\<close>): channel and address have the width of the shape, the
  other fields are 32 bits wide.
\<close>

record 'a access_params =
  aps_channel :: 'a
  aps_size :: "32 word"
  aps_address :: 'a
  aps_cmd :: "32 word"
  aps_result :: "32 word"
  aps_flags :: "32 word"

text \<open>
  What the device consumes from outside this file: the constants of the header,
  whether the build defines \<open>NDEBUG\<close> (which turns \<open>assert\<close> into nothing), the
  allocator, the service pipes (\<open>android_pipe_*\<close>) and guest memory
  (\<open>cpu_physical_memory_*\<close>). The services and guest memory live in a state \<open>'w\<close>
  of their own, which every external call may change and which holds no part of the
  device: an external call does not call back into the device before it returns. (The
  source notes that \<open>android_pipe_free\<close> may call \<open>qemu2_android_pipe_wake\<close>; in
  the model that wake is a host event of its own.)
\<close>

record 'w env =
  cmd_code :: "pipe_cmd \<Rightarrow> 32 word"
  err_code :: "pipe_error \<Rightarrow> 32 word"
  wake_flag :: "pipe_wake \<Rightarrow> 32 word"
  reg_offset :: "pipe_reg \<Rightarrow> 64 word"
  NDEBUG :: bool
  g_malloc0 :: "pipe_heap \<Rightarrow> ref"
  android_pipe_new :: "ref \<Rightarrow> 'w \<Rightarrow> handle \<times> 'w"
  android_pipe_free :: "handle \<Rightarrow> 'w \<Rightarrow> 'w"
  android_pipe_poll :: "handle \<Rightarrow> 'w \<Rightarrow> 32 word \<times> 'w"
  android_pipe_recv :: "handle \<Rightarrow> AndroidPipeBuffer list \<Rightarrow> 'w \<Rightarrow> 32 word \<times> 'w"
  android_pipe_send :: "handle \<Rightarrow> AndroidPipeBuffer list \<Rightarrow> 'w \<Rightarrow> 32 word \<times> 'w"
  android_pipe_wake_on :: "handle \<Rightarrow> 8 word \<Rightarrow> 'w \<Rightarrow> 'w"
  cpu_physical_memory_map ::
    "64 word \<Rightarrow> 64 word \<Rightarrow> bool \<Rightarrow> 'w \<Rightarrow> (hostptr option \<times> 64 word) \<times> 'w"
  cpu_physical_memory_unmap :: "hostptr \<Rightarrow> 64 word \<Rightarrow> bool \<Rightarrow> 64 word \<Rightarrow> 'w \<Rightarrow> 'w"
  read_aps32 :: "64 word \<Rightarrow> 'w \<Rightarrow> 32 word access_params"
  read_aps64 :: "64 word \<Rightarrow> 'w \<Rightarrow> 64 word access_params"
  write_aps32 :: "64 word \<Rightarrow> 32 word access_params \<Rightarrow> 'w \<Rightarrow> 'w"
  write_aps64 :: "64 word \<Rightarrow> 64 word access_params \<Rightarrow> 'w \<Rightarrow> 'w"

text \<open>
  The result of running a piece of the device: it returns, or an \<open>assert\<close> of the
  source fails and the process aborts, or C gives it no defined result (it follows a
  pointer to no live \<open>HwPipe\<close>, or a list walk never ends).
\<close>

datatype 'a outcome = Returns 'a | Aborts | Undefined

text \<open>Sequencing: the second piece runs when the first has returned.\<close>

definition and_then :: "'a outcome \<Rightarrow> ('a \<Rightarrow> 'b outcome) \<Rightarrow> 'b outcome" where
  "and_then x f = (case x of Returns v \<Rightarrow> f v | Aborts \<Rightarrow> Aborts | Undefined \<Rightarrow> Undefined)"

text \<open>Reading \<open>*p\<close> for a pointer \<open>p\<close> to a \<open>HwPipe\<close>.\<close>

definition with_pipe ::
  "(nat \<rightharpoonup> 'o) \<Rightarrow> nat option \<Rightarrow> (nat \<Rightarrow> 'o \<Rightarrow> 'a outcome) \<Rightarrow> 'a outcome" where
  "with_pipe h p f =
     (case p of
        None \<Rightarrow> Undefined
      | Some r \<Rightarrow> (case h r of None \<Rightarrow> Undefined | Some o' \<Rightarrow> f r o'))"

definition get_and_clear_pipe_wanted :: "HwPipe \<Rightarrow> 8 word \<times> HwPipe" where
  "get_and_clear_pipe_wanted p = (wanted p, p\<lparr>wanted := 0\<rparr>)"

definition set_pipe_wanted_bits :: "HwPipe \<Rightarrow> 8 word \<Rightarrow> HwPipe" where
  "set_pipe_wanted_bits p val = p\<lparr>wanted := wanted p OR val\<rparr>"

definition pipe_new0 :: HwPipe where
  "pipe_new0 = \<lparr>next = None, channel = 0, wanted = 0, closed = 0, pipe = 0\<rparr>"

text \<open>\<open>pipe_new\<close>, for the object at the address \<open>r\<close> that the allocator returned.\<close>

definition pipe_new :: "'w env \<Rightarrow> 64 word \<Rightarrow> ref \<Rightarrow> 'w \<Rightarrow> HwPipe \<times> 'w" where
  "pipe_new E chan r w =
     (case android_pipe_new E r w of
        (svc, w') \<Rightarrow> (pipe_new0\<lparr>channel := chan, pipe := svc\<rparr>, w'))"

text \<open>
  \<open>struct PipeDevice\<close>: the list head, the saved head, the two fast-path slots, the
  table (a \<open>GHashTable\<close> keyed by the value of the channel id) and the i/o registers.
\<close>

record PipeDevice =
  pipes :: "ref option"
  save_pipes :: "ref option"
  cache_pipe :: "ref option"
  cache_pipe_64bit :: "ref option"
  pipes_by_channel :: "64 word \<rightharpoonup> ref"
  address :: "64 word"
  size_reg :: "32 word"
  status :: "32 word"
  channel :: "64 word"
  wakes :: "32 word"
  params_addr :: "64 word"

text \<open>
  The whole state: the device, the \<open>HwPipe\<close> objects allocated so far, the level of
  the interrupt line (\<open>qemu_set_irq\<close>) and the state of the services and of guest
  memory.
\<close>

record 'w AndroidPipeState = PipeDevice +
  hw_pipes :: pipe_heap
  irq :: bool
  host :: 'w

subsection \<open>Cache pipe operations\<close>

definition get_and_clear_cache_pipe ::
  "'w AndroidPipeState \<Rightarrow> ref option \<times> 'w AndroidPipeState" where
  "get_and_clear_cache_pipe dev =
     (case cache_pipe_64bit dev of
        Some val \<Rightarrow> (Some val, dev\<lparr>cache_pipe_64bit := None\<rparr>)
      | None \<Rightarrow> (cache_pipe dev, dev\<lparr>cache_pipe := None\<rparr>))"

definition set_cache_pipe :: "'w AndroidPipeState \<Rightarrow> ref option \<Rightarrow> 'w AndroidPipeState" where
  "set_cache_pipe dev cp = dev\<lparr>cache_pipe := cp\<rparr>"

definition clear_cache_pipe_if_equal :: "'w AndroidPipeState \<Rightarrow> ref \<Rightarrow> 'w AndroidPipeState" where
  "clear_cache_pipe_if_equal dev r =
     (let dev1 = (if cache_pipe dev = Some r then dev\<lparr>cache_pipe := None\<rparr> else dev)
      in if cache_pipe_64bit dev1 = Some r then dev1\<lparr>cache_pipe_64bit := None\<rparr> else dev1)"

subsection \<open>Guest buffers\<close>

definition map_guest_buffer ::
  "'w env \<Rightarrow> 64 word \<Rightarrow> 64 word \<Rightarrow> bool \<Rightarrow> 'w \<Rightarrow> hostptr option \<times> 'w" where
  "map_guest_buffer E phys sz is_write w =
     (case cpu_physical_memory_map E phys sz is_write w of
        ((None, l), w1) \<Rightarrow> (None, w1)
      | ((Some ptr, l), w1) \<Rightarrow>
          if l \<noteq> sz then (None, cpu_physical_memory_unmap E ptr l False 0 w1)
          else (Some ptr, w1))"

subsection \<open>The two list walks\<close>

text \<open>
  The loop \<open>while (pipe && pipe->wanted == 0) pipe = pipe->next;\<close> of both channel
  reads. It has no result (\<open>None\<close>) when the walk never ends or reaches an address
  that holds no \<open>HwPipe\<close>.
\<close>

partial_function (option) next_pipe_to_wake :: "pipe_heap \<Rightarrow> ref option \<Rightarrow> ref option option" where
  "next_pipe_to_wake h p =
     (case p of
        None \<Rightarrow> Some None
      | Some r \<Rightarrow>
          (case h r of
             None \<Rightarrow> None
           | Some o' \<Rightarrow> if wanted o' = 0 then next_pipe_to_wake h (next o') else Some (Some r)))"

text \<open>
  The loop of \<open>PIPE_CMD_CLOSE\<close>: \<open>pnode\<close> points at the list head of the device or
  at the \<open>next\<close> field of a \<open>HwPipe\<close>; \<open>cur\<close> is \<open>*pnode\<close>. The result is the final
  \<open>pnode\<close> with \<open>*pnode\<close>.
\<close>

datatype pnode = Pipes_of_dev | Next_of ref

partial_function (option) find_pnode ::
  "pipe_heap \<Rightarrow> ref \<Rightarrow> pnode \<Rightarrow> ref option \<Rightarrow> (pnode \<times> ref option) option" where
  "find_pnode h target pnode cur =
     (case cur of
        None \<Rightarrow> Some (pnode, None)
      | Some r \<Rightarrow>
          if r = target then Some (pnode, cur)
          else (case h r of
                  None \<Rightarrow> None
                | Some o' \<Rightarrow> find_pnode h target (Next_of r) (next o')))"

subsection \<open>The command engine\<close>

definition doCommand_OPEN ::
  "'w env \<Rightarrow> 'w AndroidPipeState \<Rightarrow> ref option \<Rightarrow> 'w AndroidPipeState outcome" where
  "doCommand_OPEN E dev pipe' =
     (case pipe' of
        Some r \<Rightarrow> Returns (dev\<lparr>status := err_code E PIPE_ERROR_INVAL\<rparr>)
      | None \<Rightarrow>
          (let r = g_malloc0 E (hw_pipes dev) in
           case pipe_new E (channel dev) r (host dev) of
             (o', w) \<Rightarrow>
               Returns (dev\<lparr>hw_pipes := (hw_pipes dev)(r \<mapsto> o'\<lparr>next := pipes dev\<rparr>),
                            host := w,
                            pipes := Some r,
                            save_pipes := Some r,
                            status := 0,
                            pipes_by_channel := (pipes_by_channel dev)(channel dev \<mapsto> r)\<rparr>)))"

text \<open>\<open>*pnode = v\<close>.\<close>

definition store_pnode ::
  "'w AndroidPipeState \<Rightarrow> pnode \<Rightarrow> ref option \<Rightarrow> 'w AndroidPipeState outcome" where
  "store_pnode dev pnode v =
     (case pnode of
        Pipes_of_dev \<Rightarrow> Returns (dev\<lparr>pipes := v\<rparr>)
      | Next_of q \<Rightarrow>
          (case hw_pipes dev q of
             None \<Rightarrow> Undefined
           | Some o' \<Rightarrow> Returns (dev\<lparr>hw_pipes := (hw_pipes dev)(q \<mapsto> o'\<lparr>next := v\<rparr>)\<rparr>)))"

text \<open>\<open>pipe_free\<close>: the service pipe is freed first, then the object.\<close>

definition pipe_free :: "'w env \<Rightarrow> 'w AndroidPipeState \<Rightarrow> ref \<Rightarrow> 'w AndroidPipeState outcome" where
  "pipe_free E dev r =
     (case hw_pipes dev r of
        None \<Rightarrow> Undefined
      | Some o' \<Rightarrow>
          Returns (dev\<lparr>host := android_pipe_free E (pipe o') (host dev),
                       hw_pipes := (hw_pipes dev)(r := None)\<rparr>))"

definition doCommand_CLOSE ::
  "'w env \<Rightarrow> 'w AndroidPipeState \<Rightarrow> ref option \<Rightarrow> 'w AndroidPipeState outcome" where
  "doCommand_CLOSE E dev pipe' =
     with_pipe (hw_pipes dev) pipe' (\<lambda>r o'.
       case find_pnode (hw_pipes dev) r Pipes_of_dev (pipes dev) of
         None \<Rightarrow> Undefined
       | Some (pnode, None) \<Rightarrow> Returns (dev\<lparr>status := err_code E PIPE_ERROR_INVAL\<rparr>)
       | Some (pnode, Some x) \<Rightarrow>
           and_then (store_pnode dev pnode (next o')) (\<lambda>dev1.
             with_pipe (hw_pipes dev1) (Some r) (\<lambda>r o1.
               let dev2 = dev1\<lparr>hw_pipes := (hw_pipes dev1)(r \<mapsto> o1\<lparr>next := None\<rparr>)\<rparr>;
                   dev3 = dev2\<lparr>save_pipes := pipes dev2\<rparr>;
                   dev4 = dev3\<lparr>pipes_by_channel :=
                            (pipes_by_channel dev3)(HwPipe.channel o1 := None)\<rparr>;
                   dev5 = clear_cache_pipe_if_equal dev4 r
               in pipe_free E dev5 r)))"

definition doCommand_POLL ::
  "'w env \<Rightarrow> 'w AndroidPipeState \<Rightarrow> ref option \<Rightarrow> 'w AndroidPipeState outcome" where
  "doCommand_POLL E dev pipe' =
     with_pipe (hw_pipes dev) pipe' (\<lambda>r o'.
       case android_pipe_poll E (pipe o') (host dev) of
         (st, w) \<Rightarrow> Returns (dev\<lparr>status := st, host := w\<rparr>))"

definition doCommand_READ_BUFFER ::
  "'w env \<Rightarrow> 'w AndroidPipeState \<Rightarrow> ref option \<Rightarrow> 'w AndroidPipeState outcome" where
  "doCommand_READ_BUFFER E dev pipe' =
     with_pipe (hw_pipes dev) pipe' (\<lambda>r o'.
       case map_guest_buffer E (address dev) (ucast (size_reg dev)) True (host dev) of
         (None, w1) \<Rightarrow> Returns (dev\<lparr>status := err_code E PIPE_ERROR_INVAL, host := w1\<rparr>)
       | (Some d, w1) \<Rightarrow>
           (case android_pipe_recv E (pipe o')
                   [\<lparr>data = d, size_buf = ucast (size_reg dev)\<rparr>] w1 of
              (st, w2) \<Rightarrow>
                Returns (dev\<lparr>status := st,
                             host := cpu_physical_memory_unmap E d (ucast (size_reg dev)) True
                                       (ucast (size_reg dev)) w2\<rparr>)))"

definition doCommand_WRITE_BUFFER ::
  "'w env \<Rightarrow> 'w AndroidPipeState \<Rightarrow> ref option \<Rightarrow> 'w AndroidPipeState outcome" where
  "doCommand_WRITE_BUFFER E dev pipe' =
     with_pipe (hw_pipes dev) pipe' (\<lambda>r o'.
       case map_guest_buffer E (address dev) (ucast (size_reg dev)) False (host dev) of
         (None, w1) \<Rightarrow> Returns (dev\<lparr>status := err_code E PIPE_ERROR_INVAL, host := w1\<rparr>)
       | (Some d, w1) \<Rightarrow>
           (case android_pipe_send E (pipe o')
                   [\<lparr>data = d, size_buf = ucast (size_reg dev)\<rparr>] w1 of
              (st, w2) \<Rightarrow>
                Returns (dev\<lparr>status := st,
                             host := cpu_physical_memory_unmap E d (ucast (size_reg dev)) False
                                       (ucast (size_reg dev)) w2\<rparr>)))"

text \<open>
  \<open>PIPE_CMD_WAKE_ON_READ\<close> and \<open>PIPE_CMD_WAKE_ON_WRITE\<close>, which differ in the flag
  only. The \<open>unsigned char\<close> mask is promoted to \<open>int\<close> for the test and the or, and
  truncated when stored.
\<close>

definition doCommand_WAKE_ON ::
  "'w env \<Rightarrow> 'w AndroidPipeState \<Rightarrow> ref option \<Rightarrow> pipe_wake \<Rightarrow> 'w AndroidPipeState outcome" where
  "doCommand_WAKE_ON E dev pipe' flag =
     with_pipe (hw_pipes dev) pipe' (\<lambda>r o'.
       if (ucast (wanted o') :: 32 word) AND wake_flag E flag = 0
       then (let o1 = o'\<lparr>wanted := ucast ((ucast (wanted o') :: 32 word) OR wake_flag E flag)\<rparr>
             in Returns (dev\<lparr>hw_pipes := (hw_pipes dev)(r \<mapsto> o1),
                             host := android_pipe_wake_on E (pipe o1) (wanted o1) (host dev),
                             status := 0\<rparr>))
       else Returns (dev\<lparr>status := 0\<rparr>))"

text \<open>
  The \<open>switch\<close> of \<open>pipeDevice_doCommand\<close>, in the order of its cases; an unknown
  command is logged and changes nothing.
\<close>

definition doCommand_switch ::
  "'w env \<Rightarrow> 'w AndroidPipeState \<Rightarrow> 32 word \<Rightarrow> ref option \<Rightarrow> 'w AndroidPipeState outcome" where
  "doCommand_switch E dev command pipe' =
     (if command = cmd_code E PIPE_CMD_OPEN then doCommand_OPEN E dev pipe'
      else if command = cmd_code E PIPE_CMD_CLOSE then doCommand_CLOSE E dev pipe'
      else if command = cmd_code E PIPE_CMD_POLL then doCommand_POLL E dev pipe'
      else if command = cmd_code E PIPE_CMD_READ_BUFFER then doCommand_READ_BUFFER E dev pipe'
      else if command = cmd_code E PIPE_CMD_WRITE_BUFFER then doCommand_WRITE_BUFFER E dev pipe'
      else if command = cmd_code E PIPE_CMD_WAKE_ON_READ
        then doCommand_WAKE_ON E dev pipe' PIPE_WAKE_READ
      else if command = cmd_code E PIPE_CMD_WAKE_ON_WRITE
        then doCommand_WAKE_ON E dev pipe' PIPE_WAKE_WRITE
      else Returns dev)"

text \<open>\<open>pipe != NULL && pipe->closed\<close>; no value when \<open>pipe\<close> holds no \<open>HwPipe\<close>.\<close>

definition pipe_is_closed :: "pipe_heap \<Rightarrow> ref option \<Rightarrow> bool option" where
  "pipe_is_closed h pipe' =
     (case pipe' of
        None \<Rightarrow> Some False
      | Some r \<Rightarrow> (case h r of None \<Rightarrow> None | Some o' \<Rightarrow> Some (closed o' \<noteq> 0)))"

definition pipeDevice_doCommand ::
  "'w env \<Rightarrow> 'w AndroidPipeState \<Rightarrow> 32 word \<Rightarrow> 'w AndroidPipeState outcome" where
  "pipeDevice_doCommand E dev command =
     (let pipe' = pipes_by_channel dev (channel dev) in
      if command \<noteq> cmd_code E PIPE_CMD_OPEN \<and> pipe' = None
      then Returns (dev\<lparr>status := err_code E PIPE_ERROR_INVAL\<rparr>)
      else (case pipe_is_closed (hw_pipes dev) pipe' of
              None \<Rightarrow> Undefined
            | Some c \<Rightarrow>
                if c \<and> command \<noteq> cmd_code E PIPE_CMD_CLOSE
                then Returns (dev\<lparr>status := err_code E PIPE_ERROR_IO\<rparr>)
                else doCommand_switch E dev command pipe'))"

subsection \<open>Register writes\<close>

definition uint64_set_low :: "64 word \<Rightarrow> 32 word \<Rightarrow> 64 word" where
  "uint64_set_low addr v = (addr AND NOT 0xFFFFFFFF) OR ucast v"

definition uint64_set_high :: "64 word \<Rightarrow> 32 word \<Rightarrow> 64 word" where
  "uint64_set_high addr v = (addr AND 0xFFFFFFFF) OR push_bit 32 (ucast v)"

text \<open>The case \<open>PIPE_REG_ACCESS_PARAMS\<close> of \<open>pipe_dev_write\<close>.\<close>

definition write_ACCESS_PARAMS ::
  "'w env \<Rightarrow> 'w AndroidPipeState \<Rightarrow> 'w AndroidPipeState outcome" where
  "write_ACCESS_PARAMS E s =
     (if params_addr s = 0 then Returns s
      else
        (let aps32 = read_aps32 E (params_addr s) (host s) in
         if aps_flags aps32 = 0
         then
           (let s1 = s\<lparr>channel := ucast (aps_channel aps32),
                       size_reg := aps_size aps32,
                       address := ucast (aps_address aps32)\<rparr>;
                cmd = aps_cmd aps32
            in if cmd \<noteq> cmd_code E PIPE_CMD_READ_BUFFER \<and> cmd \<noteq> cmd_code E PIPE_CMD_WRITE_BUFFER
               then Returns s1
               else and_then (pipeDevice_doCommand E s1 cmd) (\<lambda>s2.
                      Returns (s2\<lparr>host := write_aps32 E (params_addr s2)
                                            (aps32\<lparr>aps_result := status s2\<rparr>) (host s2)\<rparr>)))
         else
           (let aps64 = read_aps64 E (params_addr s) (host s);
                s1 = s\<lparr>channel := aps_channel aps64,
                       size_reg := aps_size aps64,
                       address := aps_address aps64\<rparr>;
                cmd = aps_cmd aps64
            in if cmd \<noteq> cmd_code E PIPE_CMD_READ_BUFFER \<and> cmd \<noteq> cmd_code E PIPE_CMD_WRITE_BUFFER
               then Returns s1
               else and_then (pipeDevice_doCommand E s1 cmd) (\<lambda>s2.
                      Returns (s2\<lparr>host := write_aps64 E (params_addr s2)
                                            (aps64\<lparr>aps_result := status s2\<rparr>) (host s2)\<rparr>)))))"

definition pipe_dev_write ::
  "'w env \<Rightarrow> 'w AndroidPipeState \<Rightarrow> 64 word \<Rightarrow> 64 word \<Rightarrow> 'w AndroidPipeState outcome" where
  "pipe_dev_write E s offset v =
     (if offset = reg_offset E PIPE_REG_COMMAND then pipeDevice_doCommand E s (ucast v)
      else if offset = reg_offset E PIPE_REG_SIZE then Returns (s\<lparr>size_reg := ucast v\<rparr>)
      else if offset = reg_offset E PIPE_REG_ADDRESS
        then Returns (s\<lparr>address := uint64_set_low (address s) (ucast v)\<rparr>)
      else if offset = reg_offset E PIPE_REG_ADDRESS_HIGH
        then Returns (s\<lparr>address := uint64_set_high (address s) (ucast v)\<rparr>)
      else if offset = reg_offset E PIPE_REG_CHANNEL
        then Returns (s\<lparr>channel := uint64_set_low (channel s) (ucast v)\<rparr>)
      else if offset = reg_offset E PIPE_REG_CHANNEL_HIGH
        then Returns (s\<lparr>channel := uint64_set_high (channel s) (ucast v)\<rparr>)
      else if offset = reg_offset E PIPE_REG_PARAMS_ADDR_HIGH
        then Returns (s\<lparr>params_addr := uint64_set_high (params_addr s) (ucast v)\<rparr>)
      else if offset = reg_offset E PIPE_REG_PARAMS_ADDR_LOW
        then Returns (s\<lparr>params_addr := uint64_set_low (params_addr s) (ucast v)\<rparr>)
      else if offset = reg_offset E PIPE_REG_ACCESS_PARAMS then write_ACCESS_PARAMS E s
      else Returns s)"

subsection \<open>Register reads\<close>

definition channel_low :: "HwPipe \<Rightarrow> 64 word" where
  "channel_low o' = ucast (ucast (HwPipe.channel o' AND 0xFFFFFFFF) :: 32 word)"

definition channel_high :: "HwPipe \<Rightarrow> 32 word" where
  "channel_high o' = ucast (drop_bit 32 (HwPipe.channel o'))"

text \<open>The case \<open>PIPE_REG_CHANNEL\<close> of \<open>pipe_dev_read\<close>.\<close>

definition read_CHANNEL ::
  "'w AndroidPipeState \<Rightarrow> (64 word \<times> 'w AndroidPipeState) outcome" where
  "read_CHANNEL dev0 =
     (case get_and_clear_cache_pipe dev0 of
        (Some c, dev) \<Rightarrow>
          with_pipe (hw_pipes dev) (Some c) (\<lambda>r o'.
            case get_and_clear_pipe_wanted o' of
              (val, o1) \<Rightarrow>
                Returns (channel_low o1,
                         dev\<lparr>hw_pipes := (hw_pipes dev)(r \<mapsto> o1), wakes := ucast val\<rparr>))
      | (None, dev) \<Rightarrow>
          (let hadPipesInList = (pipes dev \<noteq> None) in
           case next_pipe_to_wake (hw_pipes dev) (pipes dev) of
             None \<Rightarrow> Undefined
           | Some None \<Rightarrow>
               (let dev1 = dev\<lparr>pipes := save_pipes dev\<rparr>
                in Returns (0, if hadPipesInList then dev1\<lparr>irq := False\<rparr> else dev1))
           | Some (Some p) \<Rightarrow>
               with_pipe (hw_pipes dev) (Some p) (\<lambda>r o'.
                 case get_and_clear_pipe_wanted o' of
                   (val, o1) \<Rightarrow>
                     (let dev1 = dev\<lparr>hw_pipes := (hw_pipes dev)(r \<mapsto> o1), wakes := ucast val,
                                     pipes := next o1\<rparr>
                      in Returns (channel_low o1,
                                  if pipes dev1 = None then dev1\<lparr>irq := False\<rparr> else dev1)))))"

text \<open>
  The case \<open>PIPE_REG_CHANNEL_HIGH\<close> of \<open>pipe_dev_read\<close>, with its two
  \<open>assert((uint32_t)(channel >> 32) != 0)\<close>, which abort the emulator unless the
  build defines \<open>NDEBUG\<close>.
\<close>

definition read_CHANNEL_HIGH ::
  "'w env \<Rightarrow> 'w AndroidPipeState \<Rightarrow> (64 word \<times> 'w AndroidPipeState) outcome" where
  "read_CHANNEL_HIGH E dev0 =
     (case get_and_clear_cache_pipe dev0 of
        (Some c, dev) \<Rightarrow>
          (let dev1 = dev\<lparr>cache_pipe_64bit := Some c\<rparr> in
           with_pipe (hw_pipes dev1) (Some c) (\<lambda>r o'.
             if channel_high o' \<noteq> 0 \<or> NDEBUG E
             then Returns (ucast (channel_high o'), dev1) else Aborts))
      | (None, dev) \<Rightarrow>
          (let hadPipesInList = (pipes dev \<noteq> None) in
           case next_pipe_to_wake (hw_pipes dev) (pipes dev) of
             None \<Rightarrow> Undefined
           | Some None \<Rightarrow>
               (let dev1 = dev\<lparr>pipes := save_pipes dev\<rparr>
                in Returns (0, if hadPipesInList then dev1\<lparr>irq := False\<rparr> else dev1))
           | Some (Some p) \<Rightarrow>
               (let dev1 = dev\<lparr>pipes := Some p\<rparr> in
                with_pipe (hw_pipes dev1) (Some p) (\<lambda>r o'.
                  if channel_high o' \<noteq> 0 \<or> NDEBUG E
                  then Returns (ucast (channel_high o'), dev1) else Aborts))))"

definition PIPE_DEVICE_VERSION :: "64 word" where
  "PIPE_DEVICE_VERSION = 1"

definition pipe_dev_read ::
  "'w env \<Rightarrow> 'w AndroidPipeState \<Rightarrow> 64 word \<Rightarrow> (64 word \<times> 'w AndroidPipeState) outcome" where
  "pipe_dev_read E dev offset =
     (if offset = reg_offset E PIPE_REG_STATUS then Returns (ucast (status dev), dev)
      else if offset = reg_offset E PIPE_REG_CHANNEL then read_CHANNEL dev
      else if offset = reg_offset E PIPE_REG_CHANNEL_HIGH then read_CHANNEL_HIGH E dev
      else if offset = reg_offset E PIPE_REG_WAKES then Returns (ucast (wakes dev), dev)
      else if offset = reg_offset E PIPE_REG_PARAMS_ADDR_HIGH
        then Returns (ucast (ucast (drop_bit 32 (params_addr dev)) :: 32 word), dev)
      else if offset = reg_offset E PIPE_REG_PARAMS_ADDR_LOW
        then Returns (ucast (ucast (params_addr dev AND 0xFFFFFFFF) :: 32 word), dev)
      else if offset = reg_offset E PIPE_REG_VERSION then Returns (PIPE_DEVICE_VERSION, dev)
      else Returns (0, dev))"

subsection \<open>Host callbacks\<close>

definition qemu2_android_pipe_wake ::
  "'w AndroidPipeState \<Rightarrow> ref \<Rightarrow> 32 word \<Rightarrow> 'w AndroidPipeState outcome" where
  "qemu2_android_pipe_wake dev hwpipe flags =
     with_pipe (hw_pipes dev) (Some hwpipe) (\<lambda>r o'.
       let o1 = set_pipe_wanted_bits o' (ucast flags);
           dev1 = dev\<lparr>hw_pipes := (hw_pipes dev)(r \<mapsto> o1)\<rparr>;
           dev2 = (if closed o1 = 0 then set_cache_pipe dev1 (Some r) else dev1)
       in Returns (dev2\<lparr>irq := True\<rparr>))"

definition qemu2_android_pipe_close ::
  "'w env \<Rightarrow> 'w AndroidPipeState \<Rightarrow> ref \<Rightarrow> 'w AndroidPipeState outcome" where
  "qemu2_android_pipe_close E dev hwpipe =
     with_pipe (hw_pipes dev) (Some hwpipe) (\<lambda>r o'.
       if closed o' = 0
       then qemu2_android_pipe_wake (dev\<lparr>hw_pipes := (hw_pipes dev)(r \<mapsto> o'\<lparr>closed := 1\<rparr>)\<rparr>) r
              (wake_flag E PIPE_WAKE_CLOSED)
       else Returns dev)"

subsection \<open>Runs of the device\<close>

text \<open>
  The device has two callers: the guest, which reads and writes registers, and the
  host services, which call \<open>signalWake\<close> and \<open>closeFromHost\<close> with the
  \<open>HwPipe\<close> they were created for. \<open>Irq_level\<close> observes the interrupt line. A
  run returns what the guest has seen, in order, and the final state.
\<close>

datatype event =
  Guest_write "64 word" "64 word"
| Guest_read "64 word"
| Host_wake ref "32 word"
| Host_close ref
| Irq_level

definition step ::
  "'w env \<Rightarrow> 'w AndroidPipeState \<Rightarrow> event \<Rightarrow> (64 word list \<times> 'w AndroidPipeState) outcome" where
  "step E s e =
     (case e of
        Guest_write offset v \<Rightarrow> and_then (pipe_dev_write E s offset v) (\<lambda>s1. Returns ([], s1))
      | Guest_read offset \<Rightarrow> and_then (pipe_dev_read E s offset) (\<lambda>(v, s1). Returns ([v], s1))
      | Host_wake hwpipe flags \<Rightarrow>
          and_then (qemu2_android_pipe_wake s hwpipe flags) (\<lambda>s1. Returns ([], s1))
      | Host_close hwpipe \<Rightarrow>
          and_then (qemu2_android_pipe_close E s hwpipe) (\<lambda>s1. Returns ([], s1))
      | Irq_level \<Rightarrow> Returns ([if irq s then 1 else 0], s))"

fun run ::
  "'w env \<Rightarrow> 'w AndroidPipeState \<Rightarrow> event list \<Rightarrow> (64 word list \<times> 'w AndroidPipeState) outcome" where
  "run E s [] = Returns ([], s)"
| "run E s (e # es) =
     and_then (step E s e) (\<lambda>(seen, s1).
       and_then (run E s1 es) (\<lambda>(seen', s2). Returns (seen @ seen', s2)))"

definition seen_by_guest ::
  "'w env \<Rightarrow> 'w AndroidPipeState \<Rightarrow> event list \<Rightarrow> 64 word list outcome" where
  "seen_by_guest E s es = and_then (run E s es) (\<lambda>(seen, s1). Returns seen)"

text \<open>The guest latches a channel id and issues a command.\<close>

definition command_on :: "'w env \<Rightarrow> 64 word \<Rightarrow> pipe_cmd \<Rightarrow> event list" where
  "command_on E chan cmd =
     [Guest_write (reg_offset E PIPE_REG_CHANNEL) (chan AND 0xFFFFFFFF),
      Guest_write (reg_offset E PIPE_REG_CHANNEL_HIGH) (drop_bit 32 chan),
      Guest_write (reg_offset E PIPE_REG_COMMAND) (ucast (cmd_code E cmd))]"

text \<open>A run of host wakes, each with its handle and its flags, in order.\<close>

fun wake_all ::
  "'w AndroidPipeState \<Rightarrow> (ref \<times> 32 word) list \<Rightarrow> 'w AndroidPipeState outcome" where
  "wake_all dev [] = Returns dev"
| "wake_all dev ((hwpipe, flags) # ws) =
     and_then (qemu2_android_pipe_wake dev hwpipe flags) (\<lambda>dev1. wake_all dev1 ws)"

section \<open>Notions used in the statements\<close>

text \<open>
  The \<open>case\<close> labels of a C \<open>switch\<close> are distinct constants, so the header gives
  distinct values to the command codes and to the register offsets.
\<close>

definition distinct_cmds :: "'w env \<Rightarrow> bool" where
  "distinct_cmds E =
     distinct (map (cmd_code E)
       [PIPE_CMD_OPEN, PIPE_CMD_CLOSE, PIPE_CMD_POLL, PIPE_CMD_READ_BUFFER,
        PIPE_CMD_WRITE_BUFFER, PIPE_CMD_WAKE_ON_READ, PIPE_CMD_WAKE_ON_WRITE])"

definition distinct_regs :: "'w env \<Rightarrow> bool" where
  "distinct_regs E =
     distinct (map (reg_offset E)
       [PIPE_REG_COMMAND, PIPE_REG_STATUS, PIPE_REG_CHANNEL, PIPE_REG_CHANNEL_HIGH,
        PIPE_REG_SIZE, PIPE_REG_ADDRESS, PIPE_REG_ADDRESS_HIGH, PIPE_REG_WAKES,
        PIPE_REG_PARAMS_ADDR_LOW, PIPE_REG_PARAMS_ADDR_HIGH, PIPE_REG_ACCESS_PARAMS,
        PIPE_REG_VERSION])"

text \<open>
  \<open>pipe_list h p rs\<close>: following \<open>next\<close> from the pointer \<open>p\<close> visits exactly the
  objects at \<open>rs\<close>, in this order, and then reaches \<open>NULL\<close>.
\<close>

fun pipe_list :: "pipe_heap \<Rightarrow> ref option \<Rightarrow> ref list \<Rightarrow> bool" where
  "pipe_list h p [] = (p = None)"
| "pipe_list h p (r # rs) =
     (p = Some r \<and> (case h r of None \<Rightarrow> False | Some o' \<Rightarrow> pipe_list h (next o') rs))"

text \<open>A pointer that is \<open>NULL\<close> or points to a live \<open>HwPipe\<close>.\<close>

definition valid_ptr :: "pipe_heap \<Rightarrow> ref option \<Rightarrow> bool" where
  "valid_ptr h p = (case p of None \<Rightarrow> True | Some r \<Rightarrow> h r \<noteq> None)"

text \<open>A signaled channel: its wake mask is not zero.\<close>

definition signaled :: "pipe_heap \<Rightarrow> ref \<Rightarrow> bool" where
  "signaled h r = (case h r of None \<Rightarrow> False | Some o' \<Rightarrow> wanted o' \<noteq> 0)"

text \<open>
  The channel a read of \<open>CHANNEL\<close> or \<open>CHANNEL_HIGH\<close> selects when the traversal list
  from the current head is \<open>rs\<close>: the one in a fast-path slot, \<open>cache_pipe_64bit\<close>
  first, else the first signaled one of the list.
\<close>

definition selected :: "'w AndroidPipeState \<Rightarrow> ref list \<Rightarrow> ref option" where
  "selected dev rs =
     (case cache_pipe_64bit dev of
        Some c \<Rightarrow> Some c
      | None \<Rightarrow>
          (case cache_pipe dev of
             Some c \<Rightarrow> Some c
           | None \<Rightarrow> find (signaled (hw_pipes dev)) rs))"

text \<open>
  The state in which the device holds the channel \<open>r\<close> that a read of
  \<open>CHANNEL_HIGH\<close> has selected: in \<open>cache_pipe_64bit\<close> when it came from a
  fast-path slot, as the head of the traversal list when it came from the scan.
\<close>

definition hold_selected :: "'w AndroidPipeState \<Rightarrow> ref \<Rightarrow> 'w AndroidPipeState" where
  "hold_selected dev r =
     (case cache_pipe_64bit dev of
        Some c \<Rightarrow> dev\<lparr>cache_pipe_64bit := Some r\<rparr>
      | None \<Rightarrow>
          (case cache_pipe dev of
             Some c \<Rightarrow> dev\<lparr>cache_pipe := None, cache_pipe_64bit := Some r\<rparr>
           | None \<Rightarrow> dev\<lparr>cache_pipe := None, pipes := Some r\<rparr>))"

text \<open>
  The wake mask of channel \<open>r\<close> after a run of host wakes that started with the
  mask \<open>w\<close>: the union of \<open>w\<close> and the flags of the wakes on \<open>r\<close>, each cut to
  the eight bits of the mask.
\<close>

fun deposited :: "ref \<Rightarrow> (ref \<times> 32 word) list \<Rightarrow> 8 word \<Rightarrow> 8 word" where
  "deposited r [] w = w"
| "deposited r ((hwpipe, flags) # ws) w =
     deposited r ws (if hwpipe = r then w OR ucast flags else w)"

text \<open>
  A drain round of the guest: one read of \<open>CHANNEL_HIGH\<close> and one of \<open>CHANNEL\<close>,
  in either order. The result is the high half, the low half and the state.
\<close>

definition drain_high_low ::
  "'w env \<Rightarrow> 'w AndroidPipeState \<Rightarrow> (64 word \<times> 64 word \<times> 'w AndroidPipeState) outcome" where
  "drain_high_low E dev =
     and_then (pipe_dev_read E dev (reg_offset E PIPE_REG_CHANNEL_HIGH)) (\<lambda>(vh, dev1).
       and_then (pipe_dev_read E dev1 (reg_offset E PIPE_REG_CHANNEL)) (\<lambda>(vl, dev2).
         Returns (vh, vl, dev2)))"

definition drain_low_high ::
  "'w env \<Rightarrow> 'w AndroidPipeState \<Rightarrow> (64 word \<times> 64 word \<times> 'w AndroidPipeState) outcome" where
  "drain_low_high E dev =
     and_then (pipe_dev_read E dev (reg_offset E PIPE_REG_CHANNEL)) (\<lambda>(vl, dev1).
       and_then (pipe_dev_read E dev1 (reg_offset E PIPE_REG_CHANNEL_HIGH)) (\<lambda>(vh, dev2).
         Returns (vh, vl, dev2)))"

subsection \<open>Well-formed states\<close>

text \<open>
  The table is consistent with the heap: an entry for a channel id points to a live
  \<open>HwPipe\<close> that carries this id.
\<close>

definition table_ok :: "'w AndroidPipeState \<Rightarrow> bool" where
  "table_ok s \<longleftrightarrow>
     (\<forall>c r. pipes_by_channel s c = Some r \<longrightarrow>
        (\<exists>o'. hw_pipes s r = Some o' \<and> HwPipe.channel o' = c))"

text \<open>A head pointer into the list \<open>rs\<close>: \<open>NULL\<close> or one of its objects.\<close>

definition head_in :: "ref option \<Rightarrow> ref list \<Rightarrow> bool" where
  "head_in p rs \<longleftrightarrow> (case p of None \<Rightarrow> True | Some r \<Rightarrow> r \<in> set rs)"

text \<open>
  A well-formed state: finitely many objects are allocated, following \<open>next\<close> from
  the saved head visits the objects of a list \<open>rs\<close> and ends in \<open>NULL\<close>, the current
  head is \<open>NULL\<close> or on this list, both fast-path slots are \<open>NULL\<close> or point to live
  objects, and the table is consistent.
\<close>

definition wf_list :: "'w AndroidPipeState \<Rightarrow> ref list \<Rightarrow> bool" where
  "wf_list s rs \<longleftrightarrow>
     finite (dom (hw_pipes s))
     \<and> pipe_list (hw_pipes s) (save_pipes s) rs \<and> head_in (pipes s) rs
     \<and> valid_ptr (hw_pipes s) (cache_pipe s)
     \<and> valid_ptr (hw_pipes s) (cache_pipe_64bit s)
     \<and> table_ok s"

definition well_formed :: "'w AndroidPipeState \<Rightarrow> bool" where
  "well_formed s \<longleftrightarrow> (\<exists>rs. wf_list s rs)"

text \<open>Two states that differ in the registers, the interrupt line and the host only.\<close>

definition only_regs :: "'w AndroidPipeState \<Rightarrow> 'w AndroidPipeState \<Rightarrow> bool" where
  "only_regs s s' \<longleftrightarrow>
     hw_pipes s' = hw_pipes s \<and> pipes s' = pipes s \<and> save_pipes s' = save_pipes s
     \<and> cache_pipe s' = cache_pipe s \<and> cache_pipe_64bit s' = cache_pipe_64bit s
     \<and> pipes_by_channel s' = pipes_by_channel s"

text \<open>An allocator that returns an address not in use.\<close>

definition fresh_allocator :: "'w env \<Rightarrow> bool" where
  "fresh_allocator E \<longleftrightarrow> (\<forall>h. finite (dom h) \<longrightarrow> h (g_malloc0 E h) = None)"

subsection \<open>A concrete environment\<close>

text \<open>
  The values of the goldfish pipe protocol, a build with assertions, and a host with
  one service that accepts every transfer in full. Guest memory holds one parameter
  struct in each shape; a mapping of zero bytes fails when \<open>map_empty_fails\<close> is
  set.
\<close>

fun goldfish_cmd_code :: "pipe_cmd \<Rightarrow> 32 word" where
  "goldfish_cmd_code PIPE_CMD_OPEN = 1"
| "goldfish_cmd_code PIPE_CMD_CLOSE = 2"
| "goldfish_cmd_code PIPE_CMD_POLL = 3"
| "goldfish_cmd_code PIPE_CMD_WRITE_BUFFER = 4"
| "goldfish_cmd_code PIPE_CMD_WAKE_ON_WRITE = 5"
| "goldfish_cmd_code PIPE_CMD_READ_BUFFER = 6"
| "goldfish_cmd_code PIPE_CMD_WAKE_ON_READ = 7"

fun goldfish_err_code :: "pipe_error \<Rightarrow> 32 word" where
  "goldfish_err_code PIPE_ERROR_INVAL = - 1"
| "goldfish_err_code PIPE_ERROR_AGAIN = - 2"
| "goldfish_err_code PIPE_ERROR_NOMEM = - 3"
| "goldfish_err_code PIPE_ERROR_IO = - 4"

fun goldfish_wake_flag :: "pipe_wake \<Rightarrow> 32 word" where
  "goldfish_wake_flag PIPE_WAKE_CLOSED = 1"
| "goldfish_wake_flag PIPE_WAKE_READ = 2"
| "goldfish_wake_flag PIPE_WAKE_WRITE = 4"

fun goldfish_reg_offset :: "pipe_reg \<Rightarrow> 64 word" where
  "goldfish_reg_offset PIPE_REG_COMMAND = 0x00"
| "goldfish_reg_offset PIPE_REG_STATUS = 0x04"
| "goldfish_reg_offset PIPE_REG_CHANNEL = 0x08"
| "goldfish_reg_offset PIPE_REG_SIZE = 0x0c"
| "goldfish_reg_offset PIPE_REG_ADDRESS = 0x10"
| "goldfish_reg_offset PIPE_REG_WAKES = 0x14"
| "goldfish_reg_offset PIPE_REG_PARAMS_ADDR_LOW = 0x18"
| "goldfish_reg_offset PIPE_REG_PARAMS_ADDR_HIGH = 0x1c"
| "goldfish_reg_offset PIPE_REG_ACCESS_PARAMS = 0x20"
| "goldfish_reg_offset PIPE_REG_VERSION = 0x24"
| "goldfish_reg_offset PIPE_REG_CHANNEL_HIGH = 0x30"
| "goldfish_reg_offset PIPE_REG_ADDRESS_HIGH = 0x34"

record demo_host =
  params32 :: "32 word access_params"
  params64 :: "64 word access_params"
  map_empty_fails :: bool
  freed :: "handle list"

definition demo_map ::
  "64 word \<Rightarrow> 64 word \<Rightarrow> bool \<Rightarrow> demo_host \<Rightarrow> (hostptr option \<times> 64 word) \<times> demo_host" where
  "demo_map phys len is_write w =
     (if len = 0 \<and> map_empty_fails w then ((None, 0), w) else ((Some (unat phys), len), w))"

definition demo_transfer ::
  "handle \<Rightarrow> AndroidPipeBuffer list \<Rightarrow> demo_host \<Rightarrow> 32 word \<times> demo_host" where
  "demo_transfer svc bufs w = (ucast (sum_list (map size_buf bufs)), w)"

definition demo_env :: "demo_host env" where
  "demo_env =
     \<lparr>cmd_code = goldfish_cmd_code,
      err_code = goldfish_err_code,
      wake_flag = goldfish_wake_flag,
      reg_offset = goldfish_reg_offset,
      NDEBUG = False,
      g_malloc0 = (\<lambda>h. if h 1 = None then 1 else if h 2 = None then 2 else 3),
      android_pipe_new = (\<lambda>r w. (r + 100, w)),
      android_pipe_free = (\<lambda>svc w. w\<lparr>freed := svc # freed w\<rparr>),
      android_pipe_poll = (\<lambda>svc w. (2, w)),
      android_pipe_recv = demo_transfer,
      android_pipe_send = demo_transfer,
      android_pipe_wake_on = (\<lambda>svc flags w. w),
      cpu_physical_memory_map = demo_map,
      cpu_physical_memory_unmap = (\<lambda>ptr len is_write access_len w. w),
      read_aps32 = (\<lambda>a w. params32 w),
      read_aps64 = (\<lambda>a w. params64 w),
      write_aps32 = (\<lambda>a v w. w\<lparr>params32 := v\<rparr>),
      write_aps64 = (\<lambda>a v w. w\<lparr>params64 := v\<rparr>)\<rparr>"

definition demo_params32 :: "32 word access_params" where
  "demo_params32 =
     \<lparr>aps_channel = 0, aps_size = 0, aps_address = 0, aps_cmd = 0, aps_result = 0,
      aps_flags = 0\<rparr>"

definition demo_params64 :: "64 word access_params" where
  "demo_params64 =
     \<lparr>aps_channel = 0, aps_size = 0, aps_address = 0, aps_cmd = 0, aps_result = 0,
      aps_flags = 0\<rparr>"

definition demo_host0 :: demo_host where
  "demo_host0 =
     \<lparr>params32 = demo_params32, params64 = demo_params64, map_empty_fails = False,
      freed = []\<rparr>"

text \<open>The device after \<open>android_pipe_realize\<close>: no channel, all registers zero.\<close>

definition realized :: "'w \<Rightarrow> 'w AndroidPipeState" where
  "realized w =
     \<lparr>pipes = None, save_pipes = None, cache_pipe = None, cache_pipe_64bit = None,
      pipes_by_channel = Map.empty, address = 0, size_reg = 0, status = 0, channel = 0,
      wakes = 0, params_addr = 0, hw_pipes = Map.empty, irq = False, host = w\<rparr>"

definition demo_pipe :: "64 word \<Rightarrow> ref option \<Rightarrow> HwPipe" where
  "demo_pipe chan nxt = \<lparr>next = nxt, HwPipe.channel = chan, wanted = 0, closed = 0, pipe = 7\<rparr>"

subsection \<open>Concrete states\<close>

text \<open>Channel 2, closed by the host, is the only channel; its id is latched.\<close>

definition dev_closed :: "demo_host AndroidPipeState" where
  "dev_closed =
     (realized demo_host0)\<lparr>pipes := Some 1, save_pipes := Some 1,
        pipes_by_channel := [2 \<mapsto> 1], channel := 2,
        hw_pipes := [1 \<mapsto> (demo_pipe 2 None)\<lparr>closed := 1, wanted := 1\<rparr>]\<rparr>"

text \<open>
  A fresh device with the channel register at 3, and the device after \<open>OPEN\<close>: the
  allocator returned address 1 and the service gave the handle 101.
\<close>

definition dev_fresh :: "demo_host AndroidPipeState" where
  "dev_fresh = (realized demo_host0)\<lparr>channel := 3\<rparr>"

definition dev_opened :: "demo_host AndroidPipeState" where
  "dev_opened =
     (realized demo_host0)\<lparr>pipes := Some 1, save_pipes := Some 1,
        pipes_by_channel := [3 \<mapsto> 1], channel := 3,
        hw_pipes := [1 \<mapsto> \<lparr>next = None, HwPipe.channel = 3, wanted = 0, closed = 0, pipe = 101\<rparr>]\<rparr>"

text \<open>The same device with a guest memory that maps no empty range.\<close>

definition dev_zero_size :: "demo_host AndroidPipeState" where
  "dev_zero_size = dev_opened\<lparr>host := demo_host0\<lparr>map_empty_fails := True\<rparr>\<rparr>"

text \<open>
  Three open channels with the ids \<open>0x100000001\<close>, \<open>0x200000002\<close> and
  \<open>0x300000003\<close>, opened in this order, so that the traversal list is 3, 2, 1.
\<close>

definition dev_three :: "demo_host AndroidPipeState" where
  "dev_three =
     (realized demo_host0)\<lparr>pipes := Some 3, save_pipes := Some 3,
        pipes_by_channel := [0x100000001 \<mapsto> 1, 0x200000002 \<mapsto> 2, 0x300000003 \<mapsto> 3],
        hw_pipes := [1 \<mapsto> demo_pipe 0x100000001 None,
                     2 \<mapsto> demo_pipe 0x200000002 (Some 1),
                     3 \<mapsto> demo_pipe 0x300000003 (Some 2)]\<rparr>"

text \<open>The same with the wake mask of the channel at address \<open>r\<close> set to \<open>w\<close>.\<close>

definition with_wanted ::
  "'w AndroidPipeState \<Rightarrow> ref \<Rightarrow> 8 word \<Rightarrow> 'w AndroidPipeState" where
  "with_wanted dev r w =
     (case hw_pipes dev r of
        None \<Rightarrow> dev
      | Some o' \<Rightarrow> dev\<lparr>hw_pipes := (hw_pipes dev)(r \<mapsto> o'\<lparr>wanted := w\<rparr>)\<rparr>)"

text \<open>
  The host has closed channel 2: its mask holds \<open>PIPE_WAKE_CLOSED\<close> and the interrupt
  is raised.
\<close>

definition dev_closed_irq :: "demo_host AndroidPipeState" where
  "dev_closed_irq = dev_closed\<lparr>irq := True\<rparr>"


definition dev_signal2 :: "demo_host AndroidPipeState" where
  "dev_signal2 = (with_wanted dev_three 2 2)\<lparr>irq := True\<rparr>"

text \<open>
  Three channels after the host wakes \<open>(2, READ)\<close>, \<open>(3, CLOSED)\<close> and
  \<open>(2, WRITE)\<close>.
\<close>

definition dev_woken :: "demo_host AndroidPipeState" where
  "dev_woken =
     dev_three\<lparr>hw_pipes := [1 \<mapsto> demo_pipe 0x100000001 None,
                              2 \<mapsto> (demo_pipe 0x200000002 (Some 1))\<lparr>wanted := 6\<rparr>,
                              3 \<mapsto> (demo_pipe 0x300000003 (Some 2))\<lparr>wanted := 1\<rparr>],
                cache_pipe := Some 2, irq := True\<rparr>"

text \<open>
  The open channel 3 with the parameter struct at guest address \<open>0x1000\<close>: channel
  3, size 4, address \<open>0x2000\<close> and the command \<open>cmd\<close>, in the 32-bit shape (flags
  0) and in the 64-bit shape (the 32-bit view of it has the command where the flags
  are).
\<close>

definition demo_struct :: "'a \<Rightarrow> 32 word \<Rightarrow> 'a \<Rightarrow> 32 word \<Rightarrow> 32 word \<Rightarrow> 'a access_params" where
  "demo_struct chan sz addr cmd flags =
     \<lparr>aps_channel = chan, aps_size = sz, aps_address = addr, aps_cmd = cmd, aps_result = 0,
      aps_flags = flags\<rparr>"

definition dev_params32 :: "32 word \<Rightarrow> demo_host AndroidPipeState" where
  "dev_params32 cmd =
     dev_opened\<lparr>channel := 0, params_addr := 0x1000,
                 host := demo_host0\<lparr>params32 := demo_struct 3 4 0x2000 cmd 0\<rparr>\<rparr>"

definition dev_params64 :: "32 word \<Rightarrow> demo_host AndroidPipeState" where
  "dev_params64 cmd =
     dev_opened\<lparr>channel := 0, params_addr := 0x1000,
                 host := demo_host0\<lparr>params32 := demo_struct 3 0 4 0x2000 cmd,
                                    params64 := demo_struct 3 4 0x2000 cmd 0\<rparr>\<rparr>"

section \<open>Properties\<close>

subsection \<open>Lists of pipes in the heap\<close>

lemma next_pipe_to_wake_list:
  "pipe_list h p rs \<Longrightarrow> next_pipe_to_wake h p = Some (find (signaled h) rs)"
proof (induction rs arbitrary: p)
  case Nil
  then show ?case by (subst next_pipe_to_wake.simps) simp
next
  case (Cons r rs)
  from Cons.prems obtain o' :: HwPipe where p: "p = Some r" and o: "h r = Some o'"
    and tl: "pipe_list h (next o') rs"
    by (auto split: option.splits)
  have s: "signaled h r = (wanted o' \<noteq> 0)" using o by (simp add: signaled_def)
  show ?case
    using Cons.IH [OF tl] p o s by (subst next_pipe_to_wake.simps) simp
qed

lemma pipe_list_upd:
  "r \<notin> set rs \<Longrightarrow> pipe_list (h(r := x)) p rs = pipe_list h p rs"
  by (induction rs arbitrary: p) (auto split: option.splits)

lemma pipe_list_unique:
  "pipe_list h p rs \<Longrightarrow> pipe_list h p rs' \<Longrightarrow> rs = rs'"
proof (induction rs arbitrary: p rs')
  case Nil
  then show ?case by (cases rs') auto
next
  case (Cons r rs)
  then show ?case by (cases rs') (auto split: option.splits)
qed

lemma pipe_list_suffix:
  "pipe_list h p (as @ bs) \<Longrightarrow> \<exists>q. pipe_list h q bs"
  by (induction as arbitrary: p) (auto split: option.splits)

text \<open>A list that ends in \<open>NULL\<close> has no cycle: no object is on it twice.\<close>

lemma pipe_list_head_fresh:
  assumes "pipe_list h p (r # rs)"
  shows "r \<notin> set rs"
proof
  assume "r \<in> set rs"
  then obtain as bs where rs: "rs = as @ r # bs"
    by (auto simp: in_set_conv_decomp)
  from assms obtain o' :: HwPipe where o: "h r = Some o'" and tl: "pipe_list h (next o') rs"
    by (auto split: option.splits)
  from tl rs obtain q where q: "pipe_list h q (r # bs)"
    using pipe_list_suffix [of h "next o'" as "r # bs"] by auto
  with o have "pipe_list h (next o') bs" by auto
  with tl have "rs = bs" by (rule pipe_list_unique)
  with rs show False by simp
qed

lemma pipe_list_distinct:
  "pipe_list h p rs \<Longrightarrow> distinct rs"
proof (induction rs arbitrary: p)
  case Nil
  then show ?case by simp
next
  case (Cons r rs)
  from Cons.prems have "r \<notin> set rs" by (rule pipe_list_head_fresh)
  moreover from Cons.prems obtain o' :: HwPipe where "pipe_list h (next o') rs"
    by (auto split: option.splits)
  then have "distinct rs" by (rule Cons.IH)
  ultimately show ?case by simp
qed

lemma pipe_list_Cons:
  "pipe_list h p (r # rs) \<longleftrightarrow>
     p = Some r \<and> (\<exists>o'. h r = Some o' \<and> pipe_list h (next o') rs)"
  by (auto split: option.splits)

lemma pipe_list_live:
  "pipe_list h p rs \<Longrightarrow> r \<in> set rs \<Longrightarrow> h r \<noteq> None"
  by (induction rs arbitrary: p) (auto split: option.splits)


lemma pipe_list_unlink:
  fixes oq o' :: HwPipe
  shows "pipe_list h p (as @ q # t # bs) \<Longrightarrow> distinct (as @ q # t # bs) \<Longrightarrow>
   h q = Some oq \<Longrightarrow> h t = Some o' \<Longrightarrow>
   pipe_list (h(q \<mapsto> oq\<lparr>next := next o'\<rparr>)) p (as @ q # bs)"
proof (induction as arbitrary: p)
  case Nil
  let ?X = "oq\<lparr>next := next o'\<rparr>"
  let ?H = "h(q \<mapsto> ?X)"
  from Nil have p: "p = Some q" and tl: "pipe_list h (next o') bs" and q: "q \<notin> set bs"
    by auto
  have a: "?H q = Some ?X" by simp
  from tl q have "pipe_list ?H (next o') bs"
    by (simp add: pipe_list_upd)
  then have b: "pipe_list ?H (next ?X) bs" by simp
  from p a b show ?case
    unfolding append_Nil by (subst pipe_list_Cons) blast
next
  case (Cons a as)
  let ?H = "h(q \<mapsto> oq\<lparr>next := next o'\<rparr>)"
  from Cons.prems(1) obtain oa :: HwPipe where p: "p = Some a" and oa: "h a = Some oa"
    and tl: "pipe_list h (next oa) (as @ q # t # bs)"
    by (auto split: option.splits)
  from Cons.prems(2) have d: "distinct (as @ q # t # bs)" and aq: "a \<noteq> q" by auto
  from oa aq have a: "?H a = Some oa" by simp
  have b: "pipe_list ?H (next oa) (as @ q # bs)"
    by (rule Cons.IH [OF tl d Cons.prems(3) Cons.prems(4)])
  from p a b show ?case
    unfolding append_Cons by (subst pipe_list_Cons) blast
qed

subsection \<open>Running the model on concrete inputs\<close>

text \<open>The defining equations that evaluate a run of the concrete device.\<close>

lemmas eval_defs =
  seen_by_guest_def step_def command_on_def and_then_def
  pipe_dev_write_def pipe_dev_read_def pipeDevice_doCommand_def pipe_is_closed_def
  doCommand_switch_def doCommand_OPEN_def doCommand_CLOSE_def doCommand_POLL_def
  doCommand_READ_BUFFER_def doCommand_WRITE_BUFFER_def doCommand_WAKE_ON_def
  with_pipe_def store_pnode_def pipe_free_def clear_cache_pipe_if_equal_def
  pipe_new_def pipe_new0_def map_guest_buffer_def
  read_CHANNEL_def read_CHANNEL_HIGH_def get_and_clear_cache_pipe_def
  get_and_clear_pipe_wanted_def set_pipe_wanted_bits_def set_cache_pipe_def
  channel_low_def channel_high_def uint64_set_low_def uint64_set_high_def
  qemu2_android_pipe_wake_def qemu2_android_pipe_close_def
  find_pnode.simps next_pipe_to_wake.simps
  demo_env_def demo_map_def demo_transfer_def demo_host0_def realized_def Let_def

lemma ucast_minus_1: "(ucast (- 1 :: 32 word) :: 64 word) = 0xFFFFFFFF"
  by (simp add: unsigned_minus_1_eq_mask mask_eq_exp_minus_1)

lemma distinct_cmds_demo: "distinct_cmds demo_env"
  by (simp add: distinct_cmds_def demo_env_def)

lemma distinct_regs_demo: "distinct_regs demo_env"
  by (simp add: distinct_regs_def demo_env_def)

subsection \<open>The two guards of the command engine\<close>

text \<open>
  C2. For every command code other than \<open>OPEN\<close>, when the table has no channel for
  the latched channel register, the command engine sets \<open>status = PIPE_ERROR_INVAL\<close>
  and does nothing else. When the latched id resolves to a channel whose \<open>closed\<close>
  flag is set, every command other than \<open>CLOSE\<close> sets \<open>status = PIPE_ERROR_IO\<close>
  and does nothing else.
\<close>

theorem doCommand_unknown_or_closed:
  "(command \<noteq> cmd_code E PIPE_CMD_OPEN \<and> pipes_by_channel dev (channel dev) = None \<longrightarrow>
      pipeDevice_doCommand E dev command
        = Returns (dev\<lparr>status := err_code E PIPE_ERROR_INVAL\<rparr>))
   \<and> (pipes_by_channel dev (channel dev) = Some r \<and> hw_pipes dev r = Some o'
        \<and> closed o' \<noteq> 0 \<and> command \<noteq> cmd_code E PIPE_CMD_CLOSE \<longrightarrow>
      pipeDevice_doCommand E dev command
        = Returns (dev\<lparr>status := err_code E PIPE_ERROR_IO\<rparr>))"
  by (simp add: pipeDevice_doCommand_def pipe_is_closed_def)

text \<open>
  \<open>POLL\<close> on the unknown channel \<open>0xDEAD\<close> of a fresh device, and \<open>POLL\<close> on the
  host-closed channel 2.
\<close>

theorem doCommand_unknown_or_closed_witness:
  "pipeDevice_doCommand demo_env ((realized demo_host0)\<lparr>channel := 0xDEAD\<rparr>) 3
     = Returns ((realized demo_host0)\<lparr>channel := 0xDEAD, status := - 1\<rparr>)
   \<and> pipeDevice_doCommand demo_env dev_closed 3 = Returns (dev_closed\<lparr>status := - 4\<rparr>)"
  using doCommand_unknown_or_closed
          [of 3 demo_env "(realized demo_host0)\<lparr>channel := 0xDEAD\<rparr>"]
        doCommand_unknown_or_closed
          [of 3 demo_env dev_closed 1 "(demo_pipe 2 None)\<lparr>closed := 1, wanted := 1\<rparr>"]
  by (simp add: demo_env_def realized_def dev_closed_def demo_pipe_def)

subsection \<open>CLOSE\<close>

lemma find_pnode_absent:
  "pipe_list h p rs \<Longrightarrow> t \<notin> set rs \<Longrightarrow> \<exists>pn'. find_pnode h t pn p = Some (pn', None)"
proof (induction rs arbitrary: p pn)
  case Nil
  then show ?case by (subst find_pnode.simps) simp
next
  case (Cons r rs)
  from Cons.prems obtain o' :: HwPipe where p: "p = Some r" and o: "h r = Some o'"
    and tl: "pipe_list h (next o') rs"
    by (auto split: option.splits)
  from Cons.prems have "t \<notin> set rs" and "r \<noteq> t" by auto
  with Cons.IH [OF tl, of "Next_of r"] p o show ?case
    by (subst find_pnode.simps) simp
qed

lemma find_pnode_present:
  "pipe_list h p (as @ t # bs) \<Longrightarrow> t \<notin> set as \<Longrightarrow>
   find_pnode h t pn p = Some (if as = [] then pn else Next_of (last as), Some t)"
proof (induction as arbitrary: p pn)
  case Nil
  then show ?case by (subst find_pnode.simps) simp
next
  case (Cons a as)
  from Cons.prems obtain o' :: HwPipe where p: "p = Some a" and o: "h a = Some o'"
    and tl: "pipe_list h (next o') (as @ t # bs)"
    by (auto split: option.splits)
  from Cons.prems have "t \<notin> set as" and "a \<noteq> t" by auto
  with Cons.IH [OF tl, of "Next_of a"] p o show ?case
    by (subst find_pnode.simps) simp
qed

lemma CLOSE_found:
  fixes o' :: HwPipe
  assumes h: "hw_pipes dev t = Some o'"
    and l: "pipe_list (hw_pipes dev) (pipes dev) rs"
    and t: "t \<in> set rs"
  shows "\<exists>dev'. doCommand_CLOSE E dev (Some t) = Returns dev'
      \<and> pipe_list (hw_pipes dev') (pipes dev') (remove1 t rs)
      \<and> save_pipes dev' = pipes dev'
      \<and> pipes_by_channel dev' = (pipes_by_channel dev)(HwPipe.channel o' := None)
      \<and> cache_pipe dev' = (if cache_pipe dev = Some t then None else cache_pipe dev)
      \<and> cache_pipe_64bit dev' = (if cache_pipe_64bit dev = Some t then None else cache_pipe_64bit dev)
      \<and> hw_pipes dev' t = None
      \<and> host dev' = android_pipe_free E (pipe o') (host dev)
      \<and> status dev' = status dev \<and> irq dev' = irq dev"
proof -
  let ?h = "hw_pipes dev"
  from t obtain as bs where rs: "rs = as @ t # bs" and nt: "t \<notin> set as"
    by (auto dest: split_list_first)
  from l have d: "distinct rs" by (rule pipe_list_distinct)
  have rm: "remove1 t rs = as @ bs" using rs nt by (simp add: remove1_append)
  have fp: "find_pnode ?h t Pipes_of_dev (pipes dev)
      = Some (if as = [] then Pipes_of_dev else Next_of (last as), Some t)"
    using l nt unfolding rs by (rule find_pnode_present)
  show ?thesis
  proof (cases as rule: rev_cases)
    case Nil
    with l rs h have tl: "pipe_list ?h (next o') bs" by simp
    from d rs have "t \<notin> set bs" by simp
    with tl have "pipe_list (?h(t := None)) (next o') bs" by (simp add: pipe_list_upd)
    with fp Nil h rm show ?thesis
      by (simp add: doCommand_CLOSE_def with_pipe_def and_then_def store_pnode_def
            pipe_free_def clear_cache_pipe_if_equal_def Let_def)
  next
    case (snoc as' q)
    from l rs snoc have "q \<in> set rs" by simp
    with l have "?h q \<noteq> None" by (rule pipe_list_live)
    then obtain oq :: HwPipe where oq: "?h q = Some oq" by auto
    from d rs snoc have qt: "q \<noteq> t" and tn: "t \<notin> set (as' @ q # bs)" by auto
    from l d have u: "pipe_list (?h(q \<mapsto> oq\<lparr>next := next o'\<rparr>)) (pipes dev) (as' @ q # bs)"
      unfolding rs snoc using oq h by (simp add: pipe_list_unlink)
    have "pipe_list ((?h(q \<mapsto> oq\<lparr>next := next o'\<rparr>))(t := None)) (pipes dev) (as' @ q # bs)
        = pipe_list (?h(q \<mapsto> oq\<lparr>next := next o'\<rparr>)) (pipes dev) (as' @ q # bs)"
      using tn by (rule pipe_list_upd)
    with u have "pipe_list ((?h(q \<mapsto> oq\<lparr>next := next o'\<rparr>))(t := None)) (pipes dev) (as' @ q # bs)"
      by blast
    with fp snoc h oq qt rm show ?thesis
      by (simp add: doCommand_CLOSE_def with_pipe_def and_then_def store_pnode_def
            pipe_free_def clear_cache_pipe_if_equal_def Let_def)
  qed
qed

lemma CLOSE_absent:
  fixes o' :: HwPipe
  assumes h: "hw_pipes dev t = Some o'"
    and l: "pipe_list (hw_pipes dev) (pipes dev) rs"
    and t: "t \<notin> set rs"
  shows "doCommand_CLOSE E dev (Some t) = Returns (dev\<lparr>status := err_code E PIPE_ERROR_INVAL\<rparr>)"
proof -
  from find_pnode_absent [OF l t, of Pipes_of_dev] obtain pn'
    where "find_pnode (hw_pipes dev) t Pipes_of_dev (pipes dev) = Some (pn', None)" by blast
  with h show ?thesis by (simp add: doCommand_CLOSE_def with_pipe_def)
qed

lemma doCommand_CLOSE_dispatch:
  assumes "distinct_cmds E" "pipes_by_channel dev (channel dev) = Some r"
    "hw_pipes dev r \<noteq> None"
  shows "pipeDevice_doCommand E dev (cmd_code E PIPE_CMD_CLOSE) = doCommand_CLOSE E dev (Some r)"
  using assms
  by (auto simp: pipeDevice_doCommand_def pipe_is_closed_def doCommand_switch_def distinct_cmds_def)

text \<open>
  What \<open>CLOSE\<close> does to a channel that the table knows. When the walk from the
  current head of the list finds it, the channel is removed: the table has no entry
  for its id any more, it is unlinked from the list, the saved head is the new head,
  neither fast-path slot refers to it and its object is freed; the status register is
  not written. When the walk does not find it, \<open>status = PIPE_ERROR_INVAL\<close> and
  nothing else changes.
\<close>

lemma CLOSE_removes_channel:
  fixes o' :: HwPipe
  assumes "distinct_cmds E"
    and "pipes_by_channel dev (channel dev) = Some r"
    and "hw_pipes dev r = Some o'"
    and "HwPipe.channel o' = channel dev"
    and "pipe_list (hw_pipes dev) (pipes dev) rs"
  shows "if r \<in> set rs
         then \<exists>dev'. pipeDevice_doCommand E dev (cmd_code E PIPE_CMD_CLOSE) = Returns dev'
                \<and> pipes_by_channel dev' (channel dev) = None
                \<and> pipe_list (hw_pipes dev') (pipes dev') (remove1 r rs)
                \<and> r \<notin> set (remove1 r rs)
                \<and> save_pipes dev' = pipes dev'
                \<and> cache_pipe dev' \<noteq> Some r
                \<and> cache_pipe_64bit dev' \<noteq> Some r
                \<and> hw_pipes dev' r = None
                \<and> status dev' = status dev
         else pipeDevice_doCommand E dev (cmd_code E PIPE_CMD_CLOSE)
                = Returns (dev\<lparr>status := err_code E PIPE_ERROR_INVAL\<rparr>)"
proof (cases "r \<in> set rs")
  case True
  have d: "pipeDevice_doCommand E dev (cmd_code E PIPE_CMD_CLOSE) = doCommand_CLOSE E dev (Some r)"
    using assms(1-3) by (simp add: doCommand_CLOSE_dispatch)
  from assms(5) have "distinct rs" by (rule pipe_list_distinct)
  then have n: "r \<notin> set (remove1 r rs)" by simp
  from CLOSE_found [OF assms(3) assms(5) True, of E] obtain dev'
    where "doCommand_CLOSE E dev (Some r) = Returns dev'"
      "pipe_list (hw_pipes dev') (pipes dev') (remove1 r rs)"
      "save_pipes dev' = pipes dev'"
      "pipes_by_channel dev' = (pipes_by_channel dev)(HwPipe.channel o' := None)"
      "cache_pipe dev' = (if cache_pipe dev = Some r then None else cache_pipe dev)"
      "cache_pipe_64bit dev' = (if cache_pipe_64bit dev = Some r then None else cache_pipe_64bit dev)"
      "hw_pipes dev' r = None" "status dev' = status dev"
    by blast
  with d n assms(4) True show ?thesis by auto
next
  case False
  have d: "pipeDevice_doCommand E dev (cmd_code E PIPE_CMD_CLOSE) = doCommand_CLOSE E dev (Some r)"
    using assms(1-3) by (simp add: doCommand_CLOSE_dispatch)
  with CLOSE_absent [OF assms(3) assms(5) False, of E] False show ?thesis by simp
qed

text \<open>
  C1. After \<open>CLOSE\<close> of a live channel the channel is removed and the status
  register is 0. The code removes the channel, but the success path of
  \<open>PIPE_CMD_CLOSE\<close> is the only path of the command engine that leaves the status
  register as it was, while \<open>OPEN\<close> and \<open>WAKE_ON_*\<close> store 0 and the failure
  path of \<open>CLOSE\<close> itself stores \<open>PIPE_ERROR_INVAL\<close>. In the run below the
  guest opens channel 2, the host closes it, \<open>POLL\<close> fails with
  \<open>PIPE_ERROR_IO\<close>, and \<open>CLOSE\<close> succeeds (the \<open>POLL\<close> after it does not find
  the channel): the status read after \<open>CLOSE\<close> is still \<open>PIPE_ERROR_IO\<close>.
\<close>

theorem CLOSE_keeps_old_status:
  "seen_by_guest demo_env (realized demo_host0)
     (command_on demo_env 2 PIPE_CMD_OPEN
      @ [Guest_read (reg_offset demo_env PIPE_REG_STATUS), Host_close 1]
      @ command_on demo_env 2 PIPE_CMD_POLL
      @ [Guest_read (reg_offset demo_env PIPE_REG_STATUS)]
      @ command_on demo_env 2 PIPE_CMD_CLOSE
      @ [Guest_read (reg_offset demo_env PIPE_REG_STATUS)]
      @ command_on demo_env 2 PIPE_CMD_POLL
      @ [Guest_read (reg_offset demo_env PIPE_REG_STATUS)])
   = Returns [0, 0xFFFFFFFC, 0xFFFFFFFC, 0xFFFFFFFF]"
  by (simp add: eval_defs ucast_minus_1)

text \<open>
  The walk of \<open>CLOSE\<close> starts at the current head, not at the saved head. After
  the host has closed channel 2 and the guest has read its id from \<open>CHANNEL\<close>, the
  head has moved past the channel: \<open>CLOSE\<close> answers \<open>PIPE_ERROR_INVAL\<close> and the
  channel stays in the table, as the \<open>PIPE_ERROR_IO\<close> of the \<open>OPEN\<close> after it
  shows.
\<close>

lemma CLOSE_behind_the_head:
  "seen_by_guest demo_env (realized demo_host0)
     (command_on demo_env 2 PIPE_CMD_OPEN
      @ [Host_close 1, Guest_read (reg_offset demo_env PIPE_REG_CHANNEL)]
      @ command_on demo_env 2 PIPE_CMD_CLOSE
      @ [Guest_read (reg_offset demo_env PIPE_REG_STATUS)]
      @ command_on demo_env 2 PIPE_CMD_OPEN
      @ [Guest_read (reg_offset demo_env PIPE_REG_STATUS)])
   = Returns [2, 0xFFFFFFFF, 0xFFFFFFFC]"
  by (simp add: eval_defs ucast_minus_1)

subsection \<open>OPEN\<close>

text \<open>
  C7, as amended. The guard on host-closed channels runs before the \<open>switch\<close>: an
  \<open>OPEN\<close> whose latched id is already in the table sets
  \<open>status = PIPE_ERROR_INVAL\<close> when that channel is not closed by the host, and
  \<open>status = PIPE_ERROR_IO\<close> when it is; it changes nothing else. An \<open>OPEN\<close> with
  an id the table does not know allocates a channel (wake mask 0, not closed, bound
  to a new service pipe), prepends it to the traversal list, makes it the saved head
  too, maps the id to it in the table and sets \<open>status = 0\<close>.
\<close>

theorem OPEN_command:
  fixes o' :: HwPipe
  assumes dc: "distinct_cmds E"
  shows
  "(pipes_by_channel dev (channel dev) = Some r \<and> hw_pipes dev r = Some o' \<longrightarrow>
      pipeDevice_doCommand E dev (cmd_code E PIPE_CMD_OPEN)
        = Returns (dev\<lparr>status := (if closed o' \<noteq> 0 then err_code E PIPE_ERROR_IO
                                     else err_code E PIPE_ERROR_INVAL)\<rparr>))
   \<and> (pipes_by_channel dev (channel dev) = None \<and> g_malloc0 E (hw_pipes dev) = n
        \<and> hw_pipes dev n = None \<and> pipe_list (hw_pipes dev) (pipes dev) rs \<longrightarrow>
      (\<exists>dev'. pipeDevice_doCommand E dev (cmd_code E PIPE_CMD_OPEN) = Returns dev'
         \<and> dev' = dev\<lparr>hw_pipes := (hw_pipes dev)(n \<mapsto>
                         \<lparr>next = pipes dev, HwPipe.channel = channel dev, wanted = 0, closed = 0,
                          pipe = fst (android_pipe_new E n (host dev))\<rparr>),
                       host := snd (android_pipe_new E n (host dev)),
                       pipes := Some n, save_pipes := Some n, status := 0,
                       pipes_by_channel := (pipes_by_channel dev)(channel dev \<mapsto> n)\<rparr>
         \<and> pipe_list (hw_pipes dev') (pipes dev') (n # rs)
         \<and> pipes_by_channel dev' (channel dev) = Some n
         \<and> save_pipes dev' = pipes dev'
         \<and> status dev' = 0))"
proof (intro conjI impI)
  assume "pipes_by_channel dev (channel dev) = Some r \<and> hw_pipes dev r = Some o'"
  then show "pipeDevice_doCommand E dev (cmd_code E PIPE_CMD_OPEN)
        = Returns (dev\<lparr>status := (if closed o' \<noteq> 0 then err_code E PIPE_ERROR_IO
                                     else err_code E PIPE_ERROR_INVAL)\<rparr>)"
    using dc
    by (simp add: pipeDevice_doCommand_def pipe_is_closed_def doCommand_switch_def
          doCommand_OPEN_def distinct_cmds_def)
next
  assume a: "pipes_by_channel dev (channel dev) = None \<and> g_malloc0 E (hw_pipes dev) = n
        \<and> hw_pipes dev n = None \<and> pipe_list (hw_pipes dev) (pipes dev) rs"
  let ?o = "\<lparr>next = pipes dev, HwPipe.channel = channel dev, wanted = 0, closed = 0,
             pipe = fst (android_pipe_new E n (host dev))\<rparr>"
  let ?dev' = "dev\<lparr>hw_pipes := (hw_pipes dev)(n \<mapsto> ?o),
                   host := snd (android_pipe_new E n (host dev)),
                   pipes := Some n, save_pipes := Some n, status := 0,
                   pipes_by_channel := (pipes_by_channel dev)(channel dev \<mapsto> n)\<rparr>"
  from a have "n \<notin> set rs" using pipe_list_live [of "hw_pipes dev" "pipes dev" rs n] by auto
  then have "pipe_list ((hw_pipes dev)(n \<mapsto> ?o)) (pipes dev) rs = pipe_list (hw_pipes dev) (pipes dev) rs"
    by (rule pipe_list_upd)
  with a have tl: "pipe_list ((hw_pipes dev)(n \<mapsto> ?o)) (next ?o) rs" by simp
  have hd: "((hw_pipes dev)(n \<mapsto> ?o)) n = Some ?o" by simp
  have l: "pipe_list ((hw_pipes dev)(n \<mapsto> ?o)) (Some n) (n # rs)"
    using hd tl by (subst pipe_list_Cons) blast
  have r: "pipeDevice_doCommand E dev (cmd_code E PIPE_CMD_OPEN) = Returns ?dev'"
    using a
    by (simp add: pipeDevice_doCommand_def pipe_is_closed_def doCommand_switch_def
          doCommand_OPEN_def pipe_new_def pipe_new0_def Let_def split: prod.splits)
  have "pipe_list (hw_pipes ?dev') (pipes ?dev') (n # rs)" using l by simp
  with r show "\<exists>dev'. pipeDevice_doCommand E dev (cmd_code E PIPE_CMD_OPEN) = Returns dev'
         \<and> dev' = ?dev'
         \<and> pipe_list (hw_pipes dev') (pipes dev') (n # rs)
         \<and> pipes_by_channel dev' (channel dev) = Some n
         \<and> save_pipes dev' = pipes dev'
         \<and> status dev' = 0"
    by simp
qed

text \<open>
  The guest opens channel 2, the host closes it, and the guest issues \<open>OPEN\<close> with
  the same id: the id is in the table, and the status is \<open>PIPE_ERROR_IO\<close>, not
  \<open>PIPE_ERROR_INVAL\<close>.
\<close>

theorem OPEN_present_counterexample:
  "seen_by_guest demo_env (realized demo_host0)
     (command_on demo_env 2 PIPE_CMD_OPEN
      @ [Host_close 1]
      @ command_on demo_env 2 PIPE_CMD_OPEN
      @ [Guest_read (reg_offset demo_env PIPE_REG_STATUS)])
   = Returns [0xFFFFFFFC]
   \<and> err_code demo_env PIPE_ERROR_INVAL = 0xFFFFFFFF"
  by (simp add: eval_defs)

theorem OPEN_command_witness:
  "distinct_cmds demo_env
   \<and> pipeDevice_doCommand demo_env dev_fresh 1 = Returns dev_opened
   \<and> pipe_list (hw_pipes dev_opened) (pipes dev_opened) [1]
   \<and> pipeDevice_doCommand demo_env dev_opened 1 = Returns (dev_opened\<lparr>status := - 1\<rparr>)
   \<and> pipeDevice_doCommand demo_env dev_closed 1 = Returns (dev_closed\<lparr>status := - 4\<rparr>)"
proof -
  have dc: "distinct_cmds demo_env"
    by (simp add: distinct_cmds_def demo_env_def)
  have a: "pipes_by_channel dev_fresh (channel dev_fresh) = None
      \<and> g_malloc0 demo_env (hw_pipes dev_fresh) = 1 \<and> hw_pipes dev_fresh 1 = None
      \<and> pipe_list (hw_pipes dev_fresh) (pipes dev_fresh) []"
    by (simp add: dev_fresh_def realized_def demo_env_def)
  have b: "pipes_by_channel dev_opened (channel dev_opened) = Some 1
      \<and> hw_pipes dev_opened 1 = Some \<lparr>next = None, HwPipe.channel = 3, wanted = 0, closed = 0, pipe = 101\<rparr>"
    by (simp add: dev_opened_def realized_def)
  have c: "pipes_by_channel dev_closed (channel dev_closed) = Some 1
      \<and> hw_pipes dev_closed 1 = Some ((demo_pipe 2 None)\<lparr>closed := 1, wanted := 1\<rparr>)"
    by (simp add: dev_closed_def realized_def)
  from OPEN_command [OF dc, of dev_fresh _ _ 1 "[]"] a
  have 1: "pipeDevice_doCommand demo_env dev_fresh 1 = Returns dev_opened"
    by (simp add: dev_fresh_def dev_opened_def realized_def demo_env_def)
  from 1 OPEN_command [OF dc, of dev_fresh _ _ 1 "[]"] a
  have 2: "pipe_list (hw_pipes dev_opened) (pipes dev_opened) [1]"
    by (auto simp: demo_env_def)
  from OPEN_command [OF dc, of dev_opened 1] b
  have 3: "pipeDevice_doCommand demo_env dev_opened 1 = Returns (dev_opened\<lparr>status := - 1\<rparr>)"
    by (simp add: demo_env_def)
  from OPEN_command [OF dc, of dev_closed 1] c
  have 4: "pipeDevice_doCommand demo_env dev_closed 1 = Returns (dev_closed\<lparr>status := - 4\<rparr>)"
    by (simp add: demo_env_def demo_pipe_def)
  from dc 1 2 3 4 show ?thesis by blast
qed

subsection \<open>Transfers of size zero\<close>

text \<open>
  C5, as amended. For a live channel that the host has not closed, \<open>READ_BUFFER\<close>
  and \<open>WRITE_BUFFER\<close> with the size register at 0 always ask guest memory for a
  mapping of zero bytes. When the mapping fails, or maps another length, the status is
  \<open>PIPE_ERROR_INVAL\<close>; otherwise the service's \<open>recv\<close> or \<open>send\<close> runs on the
  empty buffer and the status is what it returns (0 when it transfers 0 bytes).
\<close>

theorem zero_size_transfer:
  fixes o' :: HwPipe
  assumes "distinct_cmds E"
    and "pipes_by_channel dev (channel dev) = Some r"
    and "hw_pipes dev r = Some o'"
    and "closed o' = 0"
    and "size_reg dev = 0"
  shows "(\<exists>dev'. pipeDevice_doCommand E dev (cmd_code E PIPE_CMD_READ_BUFFER) = Returns dev'
           \<and> status dev' =
               (case cpu_physical_memory_map E (address dev) 0 True (host dev) of
                  ((None, l), w) \<Rightarrow> err_code E PIPE_ERROR_INVAL
                | ((Some ptr, l), w) \<Rightarrow>
                    if l = 0
                    then fst (android_pipe_recv E (pipe o') [\<lparr>data = ptr, size_buf = 0\<rparr>] w)
                    else err_code E PIPE_ERROR_INVAL))
       \<and> (\<exists>dev'. pipeDevice_doCommand E dev (cmd_code E PIPE_CMD_WRITE_BUFFER) = Returns dev'
           \<and> status dev' =
               (case cpu_physical_memory_map E (address dev) 0 False (host dev) of
                  ((None, l), w) \<Rightarrow> err_code E PIPE_ERROR_INVAL
                | ((Some ptr, l), w) \<Rightarrow>
                    if l = 0
                    then fst (android_pipe_send E (pipe o') [\<lparr>data = ptr, size_buf = 0\<rparr>] w)
                    else err_code E PIPE_ERROR_INVAL))"
proof -
  have r: "pipeDevice_doCommand E dev (cmd_code E PIPE_CMD_READ_BUFFER)
      = doCommand_READ_BUFFER E dev (Some r)"
    using assms
    by (auto simp: pipeDevice_doCommand_def pipe_is_closed_def doCommand_switch_def
          distinct_cmds_def)
  have w: "pipeDevice_doCommand E dev (cmd_code E PIPE_CMD_WRITE_BUFFER)
      = doCommand_WRITE_BUFFER E dev (Some r)"
    using assms
    by (auto simp: pipeDevice_doCommand_def pipe_is_closed_def doCommand_switch_def
          distinct_cmds_def)
  have "\<exists>dev'. doCommand_READ_BUFFER E dev (Some r) = Returns dev'
           \<and> status dev' =
               (case cpu_physical_memory_map E (address dev) 0 True (host dev) of
                  ((None, l), w) \<Rightarrow> err_code E PIPE_ERROR_INVAL
                | ((Some ptr, l), w) \<Rightarrow>
                    if l = 0
                    then fst (android_pipe_recv E (pipe o') [\<lparr>data = ptr, size_buf = 0\<rparr>] w)
                    else err_code E PIPE_ERROR_INVAL)"
    using assms(3,5)
    by (auto simp: doCommand_READ_BUFFER_def with_pipe_def map_guest_buffer_def
          split: prod.splits option.splits)
  moreover
  have "\<exists>dev'. doCommand_WRITE_BUFFER E dev (Some r) = Returns dev'
           \<and> status dev' =
               (case cpu_physical_memory_map E (address dev) 0 False (host dev) of
                  ((None, l), w) \<Rightarrow> err_code E PIPE_ERROR_INVAL
                | ((Some ptr, l), w) \<Rightarrow>
                    if l = 0
                    then fst (android_pipe_send E (pipe o') [\<lparr>data = ptr, size_buf = 0\<rparr>] w)
                    else err_code E PIPE_ERROR_INVAL)"
    using assms(3,5)
    by (auto simp: doCommand_WRITE_BUFFER_def with_pipe_def map_guest_buffer_def
          split: prod.splits option.splits)
  ultimately show ?thesis using r w by simp
qed

text \<open>
  With a guest memory that returns \<open>NULL\<close> for the mapping, the guest opens channel
  3 and issues \<open>READ_BUFFER\<close> with size 0: the status is \<open>PIPE_ERROR_INVAL\<close>.
\<close>

theorem zero_size_transfer_counterexample:
  "seen_by_guest demo_env (realized (demo_host0\<lparr>map_empty_fails := True\<rparr>))
     (command_on demo_env 3 PIPE_CMD_OPEN
      @ [Guest_write (reg_offset demo_env PIPE_REG_SIZE) 0]
      @ command_on demo_env 3 PIPE_CMD_READ_BUFFER
      @ [Guest_read (reg_offset demo_env PIPE_REG_STATUS)])
   = Returns [0xFFFFFFFF]"
  by (simp add: eval_defs ucast_minus_1)

theorem zero_size_transfer_witness:
  "distinct_cmds demo_env
   \<and> pipes_by_channel dev_opened (channel dev_opened) = Some 1
   \<and> size_reg dev_opened = 0
   \<and> (\<exists>dev'. pipeDevice_doCommand demo_env dev_opened 6 = Returns dev' \<and> status dev' = 0)
   \<and> (\<exists>dev'. pipeDevice_doCommand demo_env dev_opened 4 = Returns dev' \<and> status dev' = 0)
   \<and> (\<exists>dev'. pipeDevice_doCommand demo_env dev_zero_size 6 = Returns dev' \<and> status dev' = - 1)"
proof -
  let ?o = "\<lparr>next = None, HwPipe.channel = 3, wanted = 0, closed = 0, pipe = 101\<rparr>"
  have dc: "distinct_cmds demo_env"
    by (simp add: distinct_cmds_def demo_env_def)
  have a: "pipes_by_channel dev_opened (channel dev_opened) = Some 1"
    "hw_pipes dev_opened 1 = Some ?o" "closed ?o = 0" "size_reg dev_opened = 0"
    by (simp_all add: dev_opened_def realized_def)
  have b: "pipes_by_channel dev_zero_size (channel dev_zero_size) = Some 1"
    "hw_pipes dev_zero_size 1 = Some ?o" "size_reg dev_zero_size = 0"
    by (simp_all add: dev_zero_size_def dev_opened_def realized_def)
  have c: "cmd_code demo_env PIPE_CMD_READ_BUFFER = 6" "cmd_code demo_env PIPE_CMD_WRITE_BUFFER = 4"
    by (simp_all add: demo_env_def)
  have m: "cpu_physical_memory_map demo_env (address dev_opened) 0 True (host dev_opened)
             = ((Some 0, 0), demo_host0)"
     "cpu_physical_memory_map demo_env (address dev_opened) 0 False (host dev_opened)
             = ((Some 0, 0), demo_host0)"
     "cpu_physical_memory_map demo_env (address dev_zero_size) 0 True (host dev_zero_size)
             = ((None, 0), host dev_zero_size)"
    by (simp_all add: demo_env_def demo_map_def dev_zero_size_def dev_opened_def realized_def demo_host0_def)
  have t: "android_pipe_recv demo_env 101 [\<lparr>data = 0, size_buf = 0\<rparr>] demo_host0 = (0, demo_host0)"
    "android_pipe_send demo_env 101 [\<lparr>data = 0, size_buf = 0\<rparr>] demo_host0 = (0, demo_host0)"
    "err_code demo_env PIPE_ERROR_INVAL = - 1"
    by (simp_all add: demo_env_def demo_transfer_def)
  from zero_size_transfer [OF dc a] have 1:
    "(\<exists>dev'. pipeDevice_doCommand demo_env dev_opened 6 = Returns dev' \<and> status dev' = 0)
     \<and> (\<exists>dev'. pipeDevice_doCommand demo_env dev_opened 4 = Returns dev' \<and> status dev' = 0)"
    unfolding c m by (simp add: t)
  from zero_size_transfer [OF dc b(1,2) a(3) b(3)] have 2:
    "\<exists>dev'. pipeDevice_doCommand demo_env dev_zero_size 6 = Returns dev' \<and> status dev' = - 1"
    unfolding c m by (simp add: t)
  from dc a 1 2 show ?thesis by blast
qed

subsection \<open>The channel reads\<close>

lemma hi_roundtrip:
  "(ucast (ucast (drop_bit 32 (c::64 word)) :: 32 word) :: 64 word) = drop_bit 32 c"
proof (rule bit_word_eqI)
  fix n assume "n < LENGTH(64)"
  then show "bit (ucast (ucast (drop_bit 32 c) :: 32 word) :: 64 word) n = bit (drop_bit 32 c) n"
    by (auto simp: bit_ucast_iff bit_drop_bit_eq dest: bit_imp_le_length)
qed

lemma mask32: "(0xFFFFFFFF :: 64 word) = mask 32"
  by (simp add: mask_eq_exp_minus_1)

lemma halves:
  "push_bit 32 (drop_bit 32 c)
     OR (ucast (ucast (c AND 0xFFFFFFFF) :: 32 word) :: 64 word) = (c :: 64 word)"
proof (rule bit_word_eqI)
  fix n assume n: "n < LENGTH(64)"
  show "bit (push_bit 32 (drop_bit 32 c)
          OR (ucast (ucast (c AND 0xFFFFFFFF) :: 32 word) :: 64 word)) n = bit c n"
  proof (cases "n < 32")
    case True
    then show ?thesis
      unfolding mask32
      by (simp add: bit_or_iff bit_push_bit_iff bit_ucast_iff bit_drop_bit_eq bit_and_iff
            bit_mask_iff)
  next
    case False
    then have "32 + (n - 32) = n" by simp
    with False n show ?thesis
      unfolding mask32
      by (simp add: bit_or_iff bit_push_bit_iff bit_ucast_iff bit_drop_bit_eq bit_and_iff
            bit_mask_iff)
  qed
qed

lemma ucast_channel_high:
  "(ucast (channel_high o') :: 64 word) = drop_bit 32 (HwPipe.channel o')"
  by (simp add: channel_high_def hi_roundtrip)

lemma channel_high_zero:
  "(channel_high o' = 0) = (drop_bit 32 (HwPipe.channel o') = 0)"
proof
  assume "channel_high o' = 0"
  then have "(ucast (channel_high o') :: 64 word) = 0" by simp
  then show "drop_bit 32 (HwPipe.channel o') = 0" by (simp only: ucast_channel_high)
next
  assume "drop_bit 32 (HwPipe.channel o') = 0"
  then show "channel_high o' = 0" by (simp add: channel_high_def)
qed

lemma channel_halves:
  "push_bit 32 (ucast (channel_high o')) OR channel_low o' = HwPipe.channel o'"
  by (simp only: ucast_channel_high channel_low_def halves)

text \<open>What both channel reads select, read off the state.\<close>

lemma selected_cases:
  assumes "pipe_list (hw_pipes dev) (pipes dev) rs" "selected dev rs = Some r"
  shows "cache_pipe_64bit dev = Some r
     \<or> (cache_pipe_64bit dev = None \<and> cache_pipe dev = Some r)
     \<or> (cache_pipe_64bit dev = None \<and> cache_pipe dev = None
          \<and> next_pipe_to_wake (hw_pipes dev) (pipes dev) = Some (Some r)
          \<and> signaled (hw_pipes dev) r)"
proof -
  have "find (signaled (hw_pipes dev)) rs = Some r \<Longrightarrow> signaled (hw_pipes dev) r"
    by (auto simp: find_Some_iff)
  with assms show ?thesis
    by (auto simp: selected_def next_pipe_to_wake_list split: option.splits)
qed


lemma next_pipe_to_wake_signaled:
  "signaled h r \<Longrightarrow> next_pipe_to_wake h (Some r) = Some (Some r)"
  by (subst next_pipe_to_wake.simps) (auto simp: signaled_def split: option.splits)

lemma read_CHANNEL_picks:
  fixes o' :: HwPipe
  assumes "hw_pipes dev r = Some o'"
    and "cache_pipe_64bit dev = Some r
     \<or> (cache_pipe_64bit dev = None \<and> cache_pipe dev = Some r)
     \<or> (cache_pipe_64bit dev = None \<and> cache_pipe dev = None
          \<and> next_pipe_to_wake (hw_pipes dev) (pipes dev) = Some (Some r))"
  shows "\<exists>dev'. read_CHANNEL dev = Returns (channel_low o', dev')
     \<and> wakes dev' = ucast (wanted o')
     \<and> hw_pipes dev' = (hw_pipes dev)(r \<mapsto> o'\<lparr>wanted := 0\<rparr>)
     \<and> irq dev' = (irq dev \<and> \<not> (cache_pipe_64bit dev = None \<and> cache_pipe dev = None
                                   \<and> next o' = None))"
  using assms
  by (auto simp: read_CHANNEL_def get_and_clear_cache_pipe_def with_pipe_def
        get_and_clear_pipe_wanted_def channel_low_def Let_def)

lemma read_CHANNEL_HIGH_picks:
  fixes o' :: HwPipe
  assumes "hw_pipes dev r = Some o'"
    and "cache_pipe_64bit dev = Some r
     \<or> (cache_pipe_64bit dev = None \<and> cache_pipe dev = Some r)
     \<or> (cache_pipe_64bit dev = None \<and> cache_pipe dev = None
          \<and> next_pipe_to_wake (hw_pipes dev) (pipes dev) = Some (Some r))"
  shows "read_CHANNEL_HIGH E dev
     = (if channel_high o' = 0 \<and> \<not> NDEBUG E then Aborts
        else Returns (ucast (channel_high o'), hold_selected dev r))"
  using assms
  by (auto simp: read_CHANNEL_HIGH_def get_and_clear_cache_pipe_def with_pipe_def
        hold_selected_def Let_def)



lemma pipe_dev_read_CHANNEL:
  "distinct_regs E \<Longrightarrow> pipe_dev_read E dev (reg_offset E PIPE_REG_CHANNEL) = read_CHANNEL dev"
  by (auto simp: pipe_dev_read_def distinct_regs_def)

lemma pipe_dev_read_CHANNEL_HIGH:
  "distinct_regs E \<Longrightarrow>
   pipe_dev_read E dev (reg_offset E PIPE_REG_CHANNEL_HIGH) = read_CHANNEL_HIGH E dev"
  by (auto simp: pipe_dev_read_def distinct_regs_def)


lemma hold_selected_frame:
  "irq (hold_selected dev r) = irq dev \<and> hw_pipes (hold_selected dev r) = hw_pipes dev
   \<and> wakes (hold_selected dev r) = wakes dev"
  by (simp add: hold_selected_def split: option.splits)

lemma hold_selected_picks:
  fixes o' :: HwPipe
  assumes "hw_pipes dev r = Some o'"
    and "cache_pipe_64bit dev = Some r
     \<or> (cache_pipe_64bit dev = None \<and> cache_pipe dev = Some r)
     \<or> (cache_pipe_64bit dev = None \<and> cache_pipe dev = None \<and> signaled (hw_pipes dev) r)"
  shows "cache_pipe_64bit (hold_selected dev r) = Some r
     \<or> (cache_pipe_64bit (hold_selected dev r) = None \<and> cache_pipe (hold_selected dev r) = None
          \<and> pipes (hold_selected dev r) = Some r
          \<and> next_pipe_to_wake (hw_pipes (hold_selected dev r)) (pipes (hold_selected dev r))
              = Some (Some r))"
  using assms by (auto simp: hold_selected_def next_pipe_to_wake_signaled)

lemma read_CHANNEL_HIGH_frame:
  "read_CHANNEL_HIGH E dev = Returns (v, dev') \<Longrightarrow>
   wakes dev' = wakes dev \<and> hw_pipes dev' = hw_pipes dev"
  by (auto simp: read_CHANNEL_HIGH_def get_and_clear_cache_pipe_def with_pipe_def Let_def
        split: option.splits if_splits)





lemma high_then_low_aux:
  fixes o' :: HwPipe
  assumes "distinct_regs E"
    and "pipe_list (hw_pipes dev) (pipes dev) rs"
    and "selected dev rs = Some r"
    and "hw_pipes dev r = Some o'"
    and "pipe_dev_read E dev (reg_offset E PIPE_REG_CHANNEL_HIGH) = Returns (v, dev1)"
  shows "v = ucast (channel_high o')
     \<and> dev1 = hold_selected dev r
     \<and> hw_pipes dev1 = hw_pipes dev
     \<and> (cache_pipe_64bit dev1 = Some r
         \<or> (cache_pipe_64bit dev1 = None \<and> cache_pipe dev1 = None \<and> pipes dev1 = Some r))
     \<and> (\<exists>dev2. pipe_dev_read E dev1 (reg_offset E PIPE_REG_CHANNEL)
                  = Returns (channel_low o', dev2)
           \<and> wakes dev2 = ucast (wanted o')
           \<and> hw_pipes dev2 = (hw_pipes dev)(r \<mapsto> o'\<lparr>wanted := 0\<rparr>))
     \<and> push_bit 32 v OR channel_low o' = HwPipe.channel o'"
proof -
  note cases = selected_cases [OF assms(2,3)]
  then have picks: "cache_pipe_64bit dev = Some r
     \<or> (cache_pipe_64bit dev = None \<and> cache_pipe dev = Some r)
     \<or> (cache_pipe_64bit dev = None \<and> cache_pipe dev = None
          \<and> next_pipe_to_wake (hw_pipes dev) (pipes dev) = Some (Some r))"
    by blast
  from cases have picks': "cache_pipe_64bit dev = Some r
     \<or> (cache_pipe_64bit dev = None \<and> cache_pipe dev = Some r)
     \<or> (cache_pipe_64bit dev = None \<and> cache_pipe dev = None \<and> signaled (hw_pipes dev) r)"
    by blast
  from read_CHANNEL_HIGH_picks [OF assms(4) picks] assms(1,5)
  have v: "v = ucast (channel_high o')" and d: "dev1 = hold_selected dev r"
    by (auto simp: pipe_dev_read_CHANNEL_HIGH split: if_splits)
  have h: "hw_pipes dev1 = hw_pipes dev" using d hold_selected_frame [of dev r] by simp
  from hold_selected_picks [OF assms(4) picks'] d
  have holds: "cache_pipe_64bit dev1 = Some r
     \<or> (cache_pipe_64bit dev1 = None \<and> cache_pipe dev1 = None \<and> pipes dev1 = Some r
         \<and> next_pipe_to_wake (hw_pipes dev1) (pipes dev1) = Some (Some r))"
    by simp
  then have picks1: "cache_pipe_64bit dev1 = Some r
     \<or> (cache_pipe_64bit dev1 = None \<and> cache_pipe dev1 = Some r)
     \<or> (cache_pipe_64bit dev1 = None \<and> cache_pipe dev1 = None
          \<and> next_pipe_to_wake (hw_pipes dev1) (pipes dev1) = Some (Some r))"
    by blast
  from assms(4) h have o1: "hw_pipes dev1 r = Some o'" by simp
  from read_CHANNEL_picks [OF o1 picks1] h assms(1)
  have low: "\<exists>dev2. pipe_dev_read E dev1 (reg_offset E PIPE_REG_CHANNEL)
                  = Returns (channel_low o', dev2)
           \<and> wakes dev2 = ucast (wanted o')
           \<and> hw_pipes dev2 = (hw_pipes dev)(r \<mapsto> o'\<lparr>wanted := 0\<rparr>)"
    by (auto simp: pipe_dev_read_CHANNEL)
  from holds have holds': "cache_pipe_64bit dev1 = Some r
         \<or> (cache_pipe_64bit dev1 = None \<and> cache_pipe dev1 = None \<and> pipes dev1 = Some r)"
    by blast
  have id: "push_bit 32 v OR channel_low o' = HwPipe.channel o'"
    unfolding v by (rule channel_halves)
  show ?thesis
  proof (intro conjI)
    show "v = ucast (channel_high o')" by (rule v)
    show "dev1 = hold_selected dev r" by (rule d)
    show "hw_pipes dev1 = hw_pipes dev" by (rule h)
    show "cache_pipe_64bit dev1 = Some r
         \<or> (cache_pipe_64bit dev1 = None \<and> cache_pipe dev1 = None \<and> pipes dev1 = Some r)"
      by (rule holds')
    show "\<exists>dev2. pipe_dev_read E dev1 (reg_offset E PIPE_REG_CHANNEL)
                  = Returns (channel_low o', dev2)
           \<and> wakes dev2 = ucast (wanted o')
           \<and> hw_pipes dev2 = (hw_pipes dev)(r \<mapsto> o'\<lparr>wanted := 0\<rparr>)"
      by (rule low)
    show "push_bit 32 v OR channel_low o' = HwPipe.channel o'" by (rule id)
  qed
qed

text \<open>
  C4. When a read of \<open>CHANNEL_HIGH\<close> selects a channel, from a fast-path slot or
  by the scan, and returns, it returns the high 32 bits of its id and leaves the
  channel's wake mask as it is; the device then holds the channel in
  \<open>cache_pipe_64bit\<close> or as the head of the list. The read of \<open>CHANNEL\<close> that
  follows returns the low 32 bits of the id of the same channel (the two halves make
  up the id), latches its wake mask into \<open>wakes\<close> and clears the mask.
\<close>

theorem high_then_low:
  fixes o' :: HwPipe
  assumes "distinct_regs E"
    and "pipe_list (hw_pipes dev) (pipes dev) rs"
    and "selected dev rs = Some r"
    and "hw_pipes dev r = Some o'"
    and "pipe_dev_read E dev (reg_offset E PIPE_REG_CHANNEL_HIGH) = Returns (v, dev1)"
  shows "v = ucast (channel_high o')
     \<and> dev1 = hold_selected dev r
     \<and> hw_pipes dev1 = hw_pipes dev
     \<and> (cache_pipe_64bit dev1 = Some r
         \<or> (cache_pipe_64bit dev1 = None \<and> cache_pipe dev1 = None \<and> pipes dev1 = Some r))
     \<and> (\<exists>dev2. pipe_dev_read E dev1 (reg_offset E PIPE_REG_CHANNEL)
                  = Returns (channel_low o', dev2)
           \<and> wakes dev2 = ucast (wanted o')
           \<and> hw_pipes dev2 = (hw_pipes dev)(r \<mapsto> o'\<lparr>wanted := 0\<rparr>))
     \<and> push_bit 32 v OR channel_low o' = HwPipe.channel o'"
  using assms by (rule high_then_low_aux)

lemma high_read_signal2:
  "pipe_dev_read demo_env dev_signal2 0x30 = Returns (2, hold_selected dev_signal2 2)"
  by (simp add: pipe_dev_read_def read_CHANNEL_HIGH_def get_and_clear_cache_pipe_def with_pipe_def
        channel_high_def Let_def next_pipe_to_wake.simps with_wanted_def hold_selected_def
        dev_signal2_def dev_three_def realized_def demo_pipe_def demo_env_def)

theorem high_then_low_witness:
  "distinct_regs demo_env
   \<and> pipe_list (hw_pipes dev_signal2) (pipes dev_signal2) [3, 2, 1]
   \<and> selected dev_signal2 [3, 2, 1] = Some 2
   \<and> pipe_dev_read demo_env dev_signal2 0x30 = Returns (2, hold_selected dev_signal2 2)
   \<and> (\<exists>dev2. pipe_dev_read demo_env (hold_selected dev_signal2 2) 8 = Returns (2, dev2)
         \<and> wakes dev2 = 2)"
proof -
  let ?o = "(demo_pipe 0x200000002 (Some 1))\<lparr>wanted := 2\<rparr>"
  have l: "pipe_list (hw_pipes dev_signal2) (pipes dev_signal2) [3, 2, 1]"
    by (simp add: dev_signal2_def with_wanted_def dev_three_def realized_def demo_pipe_def)
  have s: "selected dev_signal2 [3, 2, 1] = Some 2"
    by (simp add: selected_def signaled_def dev_signal2_def with_wanted_def dev_three_def
          realized_def demo_pipe_def)
  have h: "hw_pipes dev_signal2 2 = Some ?o"
    by (simp add: dev_signal2_def with_wanted_def dev_three_def realized_def)
  have o: "reg_offset demo_env PIPE_REG_CHANNEL = 8"
    "reg_offset demo_env PIPE_REG_CHANNEL_HIGH = 0x30"
    by (simp_all add: demo_env_def)
  have v: "channel_low ?o = 2" "(ucast (wanted ?o) :: 32 word) = 2"
    by (simp_all add: channel_low_def demo_pipe_def)
  from high_read_signal2 o
  have r: "pipe_dev_read demo_env dev_signal2 (reg_offset demo_env PIPE_REG_CHANNEL_HIGH)
      = Returns (2, hold_selected dev_signal2 2)"
    by simp
  from high_then_low [OF distinct_regs_demo l s h r]
  have "\<exists>dev2. pipe_dev_read demo_env (hold_selected dev_signal2 2) 8 = Returns (2, dev2)
         \<and> wakes dev2 = 2"
    unfolding o v by blast
  with distinct_regs_demo l s high_read_signal2 show ?thesis by blast
qed

text \<open>
  What a read of \<open>CHANNEL_HIGH\<close> does with the channel it selects. Both branches
  assert that the high half of the selected id is not zero: when it is zero the read
  returns 0, and holds the channel for the read of \<open>CHANNEL\<close>, only in a build
  with \<open>NDEBUG\<close>; in any other build the assertion fails and the emulator aborts.
  For a selected channel with a nonzero high half the read returns that half.
\<close>

lemma high_read_of_zero_high_half:
  fixes o' :: HwPipe
  assumes "distinct_regs E"
    and "pipe_list (hw_pipes dev) (pipes dev) rs"
    and "selected dev rs = Some r"
    and "hw_pipes dev r = Some o'"
  shows "pipe_dev_read E dev (reg_offset E PIPE_REG_CHANNEL_HIGH)
     = (if drop_bit 32 (HwPipe.channel o') = 0 \<and> \<not> NDEBUG E then Aborts
        else Returns (drop_bit 32 (HwPipe.channel o'), hold_selected dev r))"
proof -
  from selected_cases [OF assms(2,3)]
  have picks: "cache_pipe_64bit dev = Some r
     \<or> (cache_pipe_64bit dev = None \<and> cache_pipe dev = Some r)
     \<or> (cache_pipe_64bit dev = None \<and> cache_pipe dev = None
          \<and> next_pipe_to_wake (hw_pipes dev) (pipes dev) = Some (Some r))"
    by blast
  from read_CHANNEL_HIGH_picks [OF assms(4) picks] assms(1) show ?thesis
    by (simp add: pipe_dev_read_CHANNEL_HIGH channel_high_zero ucast_channel_high)
qed

lemma high_read_of_zero_high_half_instances:
  "distinct_regs demo_env
   \<and> pipe_list (hw_pipes dev_closed_irq) (pipes dev_closed_irq) [1]
   \<and> selected dev_closed_irq [1] = Some 1
   \<and> pipe_dev_read demo_env dev_closed_irq 0x30 = Aborts
   \<and> pipe_dev_read (demo_env\<lparr>NDEBUG := True\<rparr>) dev_closed_irq 0x30
       = Returns (0, hold_selected dev_closed_irq 1)
   \<and> pipe_list (hw_pipes dev_signal2) (pipes dev_signal2) [3, 2, 1]
   \<and> selected dev_signal2 [3, 2, 1] = Some 2
   \<and> pipe_dev_read demo_env dev_signal2 0x30 = Returns (2, hold_selected dev_signal2 2)"
proof -
  let ?o = "(demo_pipe 2 None)\<lparr>closed := 1, wanted := 1\<rparr>"
  let ?o2 = "(demo_pipe 0x200000002 (Some 1))\<lparr>wanted := 2\<rparr>"
  let ?E = "demo_env\<lparr>NDEBUG := True\<rparr>"
  have l: "pipe_list (hw_pipes dev_closed_irq) (pipes dev_closed_irq) [1]"
    by (simp add: dev_closed_irq_def dev_closed_def realized_def demo_pipe_def)
  have s: "selected dev_closed_irq [1] = Some 1"
    by (simp add: selected_def signaled_def dev_closed_irq_def dev_closed_def realized_def demo_pipe_def)
  have h: "hw_pipes dev_closed_irq 1 = Some ?o"
    by (simp add: dev_closed_irq_def dev_closed_def realized_def)
  have l2: "pipe_list (hw_pipes dev_signal2) (pipes dev_signal2) [3, 2, 1]"
    by (simp add: dev_signal2_def with_wanted_def dev_three_def realized_def demo_pipe_def)
  have s2: "selected dev_signal2 [3, 2, 1] = Some 2"
    by (simp add: selected_def signaled_def dev_signal2_def with_wanted_def dev_three_def
          realized_def demo_pipe_def)
  have h2: "hw_pipes dev_signal2 2 = Some ?o2"
    by (simp add: dev_signal2_def with_wanted_def dev_three_def realized_def)
  have o: "reg_offset demo_env PIPE_REG_CHANNEL_HIGH = 0x30"
    "reg_offset ?E PIPE_REG_CHANNEL_HIGH = 0x30"
    by (simp_all add: demo_env_def)
  have z: "drop_bit 32 (HwPipe.channel ?o) = 0" "drop_bit 32 (HwPipe.channel ?o2) = 2"
    by (simp_all add: demo_pipe_def)
  have n: "\<not> NDEBUG demo_env" "NDEBUG ?E" "distinct_regs ?E"
    by (simp_all add: demo_env_def distinct_regs_def)
  from high_read_of_zero_high_half [OF distinct_regs_demo l s h] n
  have 1: "pipe_dev_read demo_env dev_closed_irq 0x30 = Aborts"
    unfolding o z by simp
  from high_read_of_zero_high_half [OF n(3) l s h] n
  have 2: "pipe_dev_read ?E dev_closed_irq 0x30 = Returns (0, hold_selected dev_closed_irq 1)"
    unfolding o z by simp
  from high_read_of_zero_high_half [OF distinct_regs_demo l2 s2 h2]
  have 3: "pipe_dev_read demo_env dev_signal2 0x30 = Returns (2, hold_selected dev_signal2 2)"
    unfolding o z by simp
  from distinct_regs_demo l s 1 2 l2 s2 3 show ?thesis by blast
qed

text \<open>
  C6. For a signaled channel whose id has zero high 32 bits, a read of
  \<open>CHANNEL_HIGH\<close> that selects it returns 0 without faulting. The code does not:
  \<open>OPEN\<close> accepts such an id, and the comment at the head of the case says that
  such ids happen and that the read returns 0 for them, but both branches of the case
  assert that the high half of the selected id is not zero. In the run below the guest
  opens channel 2 (status 0) and the host wakes it: in the build with assertions the
  read of \<open>CHANNEL_HIGH\<close> aborts the emulator. Only in a build with \<open>NDEBUG\<close>
  does it return 0, and the reads of \<open>CHANNEL\<close> and \<open>WAKES\<close> after it return
  the id 2 and the flag of the wake.
\<close>

theorem high_read_aborts:
  "seen_by_guest demo_env (realized demo_host0)
     (command_on demo_env 2 PIPE_CMD_OPEN
      @ [Guest_read (reg_offset demo_env PIPE_REG_STATUS),
         Host_wake 1 (wake_flag demo_env PIPE_WAKE_READ),
         Guest_read (reg_offset demo_env PIPE_REG_CHANNEL_HIGH)])
   = Aborts
   \<and> seen_by_guest (demo_env\<lparr>NDEBUG := True\<rparr>) (realized demo_host0)
     (command_on demo_env 2 PIPE_CMD_OPEN
      @ [Guest_read (reg_offset demo_env PIPE_REG_STATUS),
         Host_wake 1 (wake_flag demo_env PIPE_WAKE_READ),
         Guest_read (reg_offset demo_env PIPE_REG_CHANNEL_HIGH),
         Guest_read (reg_offset demo_env PIPE_REG_CHANNEL),
         Guest_read (reg_offset demo_env PIPE_REG_WAKES)])
   = Returns [0, 0, 2, 2]"
  by (simp add: eval_defs)

subsection \<open>Host wakes and the drain\<close>

lemma wake_heap:
  fixes o' :: HwPipe
  assumes "qemu2_android_pipe_wake dev p f = Returns dev1" "hw_pipes dev r = Some o'"
  shows "hw_pipes dev1 r = Some (o'\<lparr>wanted := (if p = r then wanted o' OR ucast f else wanted o')\<rparr>)"
  using assms
  by (auto simp: qemu2_android_pipe_wake_def with_pipe_def set_pipe_wanted_bits_def
        set_cache_pipe_def Let_def split: option.splits if_splits)

lemma wake_all_heap:
  fixes o' :: HwPipe
  shows "wake_all dev ws = Returns dev1 \<Longrightarrow> hw_pipes dev r = Some o' \<Longrightarrow>
    hw_pipes dev1 r = Some (o'\<lparr>wanted := deposited r ws (wanted o')\<rparr>)"
proof (induction ws arbitrary: dev o')
  case Nil
  then show ?case by simp
next
  case (Cons a ws)
  obtain p f where a: "a = (p, f)" by (cases a)
  from Cons.prems(1) a obtain d where w: "qemu2_android_pipe_wake dev p f = Returns d"
    and rest: "wake_all d ws = Returns dev1"
    by (auto simp: and_then_def split: outcome.splits)
  let ?o = "o'\<lparr>wanted := (if p = r then wanted o' OR ucast f else wanted o')\<rparr>"
  from wake_heap [OF w Cons.prems(2)] have "hw_pipes d r = Some ?o" .
  from Cons.IH [OF rest this] a show ?case by simp
qed

text \<open>
  C9. Take a channel whose wake mask is \<open>w\<close> (0 after a drain, as the last
  conjunct says), any run of host wakes, each of which ors its flags, cut to the
  eight bits of the mask, into the mask of its channel, and then a drain round (a
  read of \<open>CHANNEL_HIGH\<close> and one of \<open>CHANNEL\<close>, in either order) whose read of
  \<open>CHANNEL\<close> selects the channel. After the drain the \<open>wakes\<close> register is the
  union of \<open>w\<close> and the flags deposited on this channel, hence the union of the
  deposited flags when the run started after a drain, and the channel's mask is 0.
\<close>

theorem wakes_then_drain:
  fixes o' :: HwPipe
  assumes "distinct_regs E"
    and "hw_pipes dev r = Some o'"
    and "wake_all dev ws = Returns dev1"
    and "pipe_list (hw_pipes dev1) (pipes dev1) rs"
    and "selected dev1 rs = Some r"
    and "drain_high_low E dev1 = Returns (vh, vl, dev3)
         \<or> drain_low_high E dev1 = Returns (vh, vl, dev3)"
  shows "wakes dev3 = ucast (deposited r ws (wanted o'))
     \<and> hw_pipes dev3 r = Some (o'\<lparr>wanted := 0\<rparr>)
     \<and> vl = channel_low o'"
proof -
  let ?o1 = "o'\<lparr>wanted := deposited r ws (wanted o')\<rparr>"
  from wake_all_heap [OF assms(3,2)] have o1: "hw_pipes dev1 r = Some ?o1" .
  from selected_cases [OF assms(4,5)]
  have picks: "cache_pipe_64bit dev1 = Some r
     \<or> (cache_pipe_64bit dev1 = None \<and> cache_pipe dev1 = Some r)
     \<or> (cache_pipe_64bit dev1 = None \<and> cache_pipe dev1 = None
          \<and> next_pipe_to_wake (hw_pipes dev1) (pipes dev1) = Some (Some r))"
    by blast
  from assms(6) show ?thesis
  proof
    assume "drain_high_low E dev1 = Returns (vh, vl, dev3)"
    then obtain dev2 where hi: "pipe_dev_read E dev1 (reg_offset E PIPE_REG_CHANNEL_HIGH) = Returns (vh, dev2)"
      and lo: "pipe_dev_read E dev2 (reg_offset E PIPE_REG_CHANNEL) = Returns (vl, dev3)"
      by (auto simp: drain_high_low_def and_then_def split: outcome.splits)
    from high_then_low_aux [OF assms(1,4,5) o1 hi] lo show ?thesis
      by (auto simp: channel_low_def)
  next
    assume "drain_low_high E dev1 = Returns (vh, vl, dev3)"
    then obtain dev2 where lo: "pipe_dev_read E dev1 (reg_offset E PIPE_REG_CHANNEL) = Returns (vl, dev2)"
      and hi: "pipe_dev_read E dev2 (reg_offset E PIPE_REG_CHANNEL_HIGH) = Returns (vh, dev3)"
      by (auto simp: drain_low_high_def and_then_def split: outcome.splits)
    from read_CHANNEL_picks [OF o1 picks] lo assms(1)
    have 2: "vl = channel_low ?o1" "wakes dev2 = ucast (wanted ?o1)"
      "hw_pipes dev2 = (hw_pipes dev1)(r \<mapsto> ?o1\<lparr>wanted := 0\<rparr>)"
      by (auto simp: pipe_dev_read_CHANNEL)
    from hi assms(1) have "read_CHANNEL_HIGH E dev2 = Returns (vh, dev3)"
      by (simp add: pipe_dev_read_CHANNEL_HIGH)
    from read_CHANNEL_HIGH_frame [OF this] 2 show ?thesis
      by (simp add: channel_low_def)
  qed
qed

lemma wake_all_three:
  "wake_all dev_three [(2, 2), (3, 1), (2, 4)] = Returns dev_woken"
  by (simp add: qemu2_android_pipe_wake_def with_pipe_def set_pipe_wanted_bits_def
        set_cache_pipe_def and_then_def Let_def dev_woken_def
        dev_three_def realized_def demo_pipe_def fun_eq_iff)

lemma drain_high_low_woken:
  "\<exists>vh vl dev3. drain_high_low demo_env dev_woken = Returns (vh, vl, dev3)"
  by (simp add: drain_high_low_def pipe_dev_read_def read_CHANNEL_HIGH_def read_CHANNEL_def
        get_and_clear_cache_pipe_def with_pipe_def get_and_clear_pipe_wanted_def
        channel_high_def and_then_def Let_def next_pipe_to_wake.simps
        dev_woken_def dev_three_def realized_def demo_pipe_def demo_env_def)

lemma drain_low_high_woken:
  "\<exists>vh vl dev3. drain_low_high demo_env dev_woken = Returns (vh, vl, dev3)"
  by (simp add: drain_low_high_def pipe_dev_read_def read_CHANNEL_HIGH_def read_CHANNEL_def
        get_and_clear_cache_pipe_def with_pipe_def get_and_clear_pipe_wanted_def
        channel_high_def and_then_def Let_def next_pipe_to_wake.simps
        dev_woken_def dev_three_def realized_def demo_pipe_def demo_env_def)

theorem wakes_then_drain_witness:
  "distinct_regs demo_env
   \<and> wake_all dev_three [(2, 2), (3, 1), (2, 4)] = Returns dev_woken
   \<and> pipe_list (hw_pipes dev_woken) (pipes dev_woken) [3, 2, 1]
   \<and> selected dev_woken [3, 2, 1] = Some 2
   \<and> (\<exists>vh vl dev3. drain_high_low demo_env dev_woken = Returns (vh, vl, dev3)
        \<and> wakes dev3 = 6 \<and> vl = 2
        \<and> hw_pipes dev3 2 = Some (demo_pipe 0x200000002 (Some 1)))
   \<and> (\<exists>vh vl dev3. drain_low_high demo_env dev_woken = Returns (vh, vl, dev3)
        \<and> wakes dev3 = 6 \<and> vl = 2
        \<and> hw_pipes dev3 2 = Some (demo_pipe 0x200000002 (Some 1)))"
proof -
  let ?ws = "[(2, 2), (3, 1), (2, 4)] :: (ref \<times> 32 word) list"
  let ?o = "demo_pipe 0x200000002 (Some 1)"
  have h: "hw_pipes dev_three 2 = Some ?o"
    by (simp add: dev_three_def realized_def)
  note w = wake_all_three
  have l: "pipe_list (hw_pipes dev_woken) (pipes dev_woken) [3, 2, 1]"
    by (simp add: dev_woken_def dev_three_def realized_def demo_pipe_def)
  have s: "selected dev_woken [3, 2, 1] = Some 2"
    by (simp add: selected_def dev_woken_def dev_three_def realized_def)
  from drain_high_low_woken obtain vh vl dev3
    where d: "drain_high_low demo_env dev_woken = Returns (vh, vl, dev3)" by blast
  from drain_low_high_woken obtain vh' vl' dev3'
    where d': "drain_low_high demo_env dev_woken = Returns (vh', vl', dev3')" by blast
  have v: "(ucast (deposited 2 ?ws (wanted ?o)) :: 32 word) = 6" "channel_low ?o = 2"
    "?o\<lparr>wanted := 0\<rparr> = ?o"
    by (simp_all add: demo_pipe_def channel_low_def)
  from wakes_then_drain [OF distinct_regs_demo h w l s disjI1 [OF d]]
  have 1: "wakes dev3 = 6 \<and> vl = 2 \<and> hw_pipes dev3 2 = Some ?o"
    unfolding v by simp
  from wakes_then_drain [OF distinct_regs_demo h w l s disjI2 [OF d']]
  have 2: "wakes dev3' = 6 \<and> vl' = 2 \<and> hw_pipes dev3' 2 = Some ?o"
    unfolding v by simp
  from distinct_regs_demo w l s d d' 1 2 show ?thesis by blast
qed

subsection \<open>The packed parameter path\<close>

lemma store_pnode_params_addr:
  "store_pnode dev pn x = Returns dev' \<Longrightarrow> params_addr dev' = params_addr dev"
  by (auto simp: store_pnode_def split: pnode.splits option.splits)

lemma OPEN_params_addr:
  "doCommand_OPEN E s p = Returns s' \<Longrightarrow> params_addr s' = params_addr s"
  by (auto simp: doCommand_OPEN_def Let_def split: option.splits prod.splits)

lemma CLOSE_params_addr:
  "doCommand_CLOSE E s p = Returns s' \<Longrightarrow> params_addr s' = params_addr s"
  by (auto simp: doCommand_CLOSE_def with_pipe_def and_then_def pipe_free_def
        clear_cache_pipe_if_equal_def Let_def
        dest!: store_pnode_params_addr
        split: option.splits if_splits prod.splits outcome.splits)

lemma POLL_params_addr:
  "doCommand_POLL E s p = Returns s' \<Longrightarrow> params_addr s' = params_addr s"
  by (auto simp: doCommand_POLL_def with_pipe_def split: option.splits prod.splits)

lemma READ_BUFFER_params_addr:
  "doCommand_READ_BUFFER E s p = Returns s' \<Longrightarrow> params_addr s' = params_addr s"
  by (auto simp: doCommand_READ_BUFFER_def with_pipe_def split: option.splits prod.splits)

lemma WRITE_BUFFER_params_addr:
  "doCommand_WRITE_BUFFER E s p = Returns s' \<Longrightarrow> params_addr s' = params_addr s"
  by (auto simp: doCommand_WRITE_BUFFER_def with_pipe_def split: option.splits prod.splits)

lemma WAKE_ON_params_addr:
  "doCommand_WAKE_ON E s p f = Returns s' \<Longrightarrow> params_addr s' = params_addr s"
  by (auto simp: doCommand_WAKE_ON_def with_pipe_def Let_def split: option.splits if_splits)

lemma doCommand_switch_params_addr:
  "doCommand_switch E s c p = Returns s' \<Longrightarrow> params_addr s' = params_addr s"
  unfolding doCommand_switch_def
  by (auto split: if_splits
        dest: OPEN_params_addr CLOSE_params_addr POLL_params_addr READ_BUFFER_params_addr
          WRITE_BUFFER_params_addr WAKE_ON_params_addr)

lemma doCommand_params_addr:
  "pipeDevice_doCommand E s c = Returns s' \<Longrightarrow> params_addr s' = params_addr s"
  unfolding pipeDevice_doCommand_def Let_def
  by (auto split: if_splits option.splits dest: doCommand_switch_params_addr)

lemma pipe_dev_write_ACCESS_PARAMS:
  "distinct_regs E \<Longrightarrow>
   pipe_dev_write E s (reg_offset E PIPE_REG_ACCESS_PARAMS) v = write_ACCESS_PARAMS E s"
  by (auto simp: pipe_dev_write_def distinct_regs_def)

lemma and_then_write_back:
  assumes "\<And>s2. x = Returns s2 \<Longrightarrow> f s2 = g s2"
  shows "and_then x f = and_then x g"
  using assms by (cases x) (simp_all add: and_then_def)

text \<open>
  C8. A write to \<open>ACCESS_PARAMS\<close> with a nonzero \<open>params_addr\<close> reads the struct
  in its 32-bit shape; when the flags of that shape are 0 it uses the 32-bit struct,
  otherwise it reads the struct again in its 64-bit shape. It latches channel, size
  and address from the shape it detected. It runs the command only when the command
  is \<open>READ_BUFFER\<close> or \<open>WRITE_BUFFER\<close>, and then writes the struct back at
  \<open>params_addr\<close> in the detected shape with the resulting status in the result
  field; any other command is ignored.
\<close>

theorem access_params_write:
  assumes "distinct_regs E" and "params_addr s \<noteq> 0"
  shows "pipe_dev_write E s (reg_offset E PIPE_REG_ACCESS_PARAMS) v =
     (let aps32 = read_aps32 E (params_addr s) (host s);
          aps64 = read_aps64 E (params_addr s) (host s)
      in if aps_flags aps32 = 0
         then
           (let s1 = s\<lparr>channel := ucast (aps_channel aps32), size_reg := aps_size aps32,
                       address := ucast (aps_address aps32)\<rparr>
            in if aps_cmd aps32 = cmd_code E PIPE_CMD_READ_BUFFER
                  \<or> aps_cmd aps32 = cmd_code E PIPE_CMD_WRITE_BUFFER
               then and_then (pipeDevice_doCommand E s1 (aps_cmd aps32)) (\<lambda>s2.
                      Returns (s2\<lparr>host := write_aps32 E (params_addr s)
                                            (aps32\<lparr>aps_result := status s2\<rparr>) (host s2)\<rparr>))
               else Returns s1)
         else
           (let s1 = s\<lparr>channel := aps_channel aps64, size_reg := aps_size aps64,
                       address := aps_address aps64\<rparr>
            in if aps_cmd aps64 = cmd_code E PIPE_CMD_READ_BUFFER
                  \<or> aps_cmd aps64 = cmd_code E PIPE_CMD_WRITE_BUFFER
               then and_then (pipeDevice_doCommand E s1 (aps_cmd aps64)) (\<lambda>s2.
                      Returns (s2\<lparr>host := write_aps64 E (params_addr s)
                                            (aps64\<lparr>aps_result := status s2\<rparr>) (host s2)\<rparr>))
               else Returns s1))"
proof -
  have a: "and_then (pipeDevice_doCommand E s1 c) (\<lambda>s2.
              Returns (s2\<lparr>host := write_aps32 E (params_addr s2) (x s2) (host s2)\<rparr>))
         = and_then (pipeDevice_doCommand E s1 c) (\<lambda>s2.
              Returns (s2\<lparr>host := write_aps32 E (params_addr s) (x s2) (host s2)\<rparr>))"
    if "params_addr s1 = params_addr s" for s1 c x
    using that by (intro and_then_write_back) (simp add: doCommand_params_addr)
  have b: "and_then (pipeDevice_doCommand E s1 c) (\<lambda>s2.
              Returns (s2\<lparr>host := write_aps64 E (params_addr s2) (x s2) (host s2)\<rparr>))
         = and_then (pipeDevice_doCommand E s1 c) (\<lambda>s2.
              Returns (s2\<lparr>host := write_aps64 E (params_addr s) (x s2) (host s2)\<rparr>))"
    if "params_addr s1 = params_addr s" for s1 c x
    using that by (intro and_then_write_back) (simp add: doCommand_params_addr)
  show ?thesis
    using assms
    by (simp add: pipe_dev_write_ACCESS_PARAMS write_ACCESS_PARAMS_def Let_def a b)
qed

theorem access_params_write_witness:
  "distinct_regs demo_env
   \<and> params_addr (dev_params32 6) \<noteq> 0
   \<and> (\<exists>s'. pipe_dev_write demo_env (dev_params32 6) 0x20 0 = Returns s'
         \<and> channel s' = 3 \<and> size_reg s' = 4 \<and> address s' = 0x2000 \<and> status s' = 4
         \<and> params32 (host s') = (demo_struct 3 4 0x2000 6 0)\<lparr>aps_result := 4\<rparr>
         \<and> params64 (host s') = demo_params64)
   \<and> (\<exists>s'. pipe_dev_write demo_env (dev_params64 4) 0x20 0 = Returns s'
         \<and> channel s' = 3 \<and> size_reg s' = 4 \<and> address s' = 0x2000 \<and> status s' = 4
         \<and> params64 (host s') = (demo_struct 3 4 0x2000 4 0)\<lparr>aps_result := 4\<rparr>
         \<and> params32 (host s') = demo_struct 3 0 4 0x2000 4)
   \<and> pipe_dev_write demo_env (dev_params32 3) 0x20 0
       = Returns ((dev_params32 3)\<lparr>channel := 3, size_reg := 4, address := 0x2000\<rparr>)"
proof -
  have p: "params_addr (dev_params32 c) \<noteq> 0" "params_addr (dev_params64 c) \<noteq> 0" for c
    by (simp_all add: dev_params32_def dev_params64_def dev_opened_def realized_def)
  have 1: "\<exists>s'. pipe_dev_write demo_env (dev_params32 6) 0x20 0 = Returns s'
         \<and> channel s' = 3 \<and> size_reg s' = 4 \<and> address s' = 0x2000 \<and> status s' = 4
         \<and> params32 (host s') = (demo_struct 3 4 0x2000 6 0)\<lparr>aps_result := 4\<rparr>
         \<and> params64 (host s') = demo_params64"
    using access_params_write [OF distinct_regs_demo p(1), of 6 0]
    by (simp add: and_then_def pipeDevice_doCommand_def pipe_is_closed_def doCommand_switch_def
          doCommand_READ_BUFFER_def with_pipe_def map_guest_buffer_def demo_map_def
          demo_transfer_def Let_def demo_struct_def
          dev_params32_def dev_opened_def realized_def demo_host0_def demo_env_def)
  have 2: "\<exists>s'. pipe_dev_write demo_env (dev_params64 4) 0x20 0 = Returns s'
         \<and> channel s' = 3 \<and> size_reg s' = 4 \<and> address s' = 0x2000 \<and> status s' = 4
         \<and> params64 (host s') = (demo_struct 3 4 0x2000 4 0)\<lparr>aps_result := 4\<rparr>
         \<and> params32 (host s') = demo_struct 3 0 4 0x2000 4"
    using access_params_write [OF distinct_regs_demo p(2), of 4 0]
    by (simp add: and_then_def pipeDevice_doCommand_def pipe_is_closed_def doCommand_switch_def
          doCommand_WRITE_BUFFER_def with_pipe_def map_guest_buffer_def demo_map_def
          demo_transfer_def Let_def demo_struct_def
          dev_params64_def dev_opened_def realized_def demo_host0_def demo_env_def)
  have 3: "pipe_dev_write demo_env (dev_params32 3) 0x20 0
       = Returns ((dev_params32 3)\<lparr>channel := 3, size_reg := 4, address := 0x2000\<rparr>)"
    using access_params_write [OF distinct_regs_demo p(1), of 3 0]
    by (simp add: Let_def demo_struct_def
          dev_params32_def dev_opened_def realized_def demo_host0_def demo_env_def)
  from distinct_regs_demo p(1) 1 2 3 show ?thesis by blast
qed

text \<open>
  C10. A write to \<open>ACCESS_PARAMS\<close> with \<open>params_addr = 0\<close> changes nothing. With
  a nonzero \<open>params_addr\<close> and a command in the struct that is neither
  \<open>READ_BUFFER\<close> nor \<open>WRITE_BUFFER\<close>, the only change is that the channel, size
  and address registers hold the values of the struct: the status register and guest
  memory, the result field of the struct with it, are as before.
\<close>

theorem access_params_ignored:
  assumes "distinct_regs E"
  shows "(params_addr s = 0 \<longrightarrow>
            pipe_dev_write E s (reg_offset E PIPE_REG_ACCESS_PARAMS) v = Returns s)
     \<and> (params_addr s \<noteq> 0 \<and> aps_flags (read_aps32 E (params_addr s) (host s)) = 0
          \<and> aps_cmd (read_aps32 E (params_addr s) (host s)) \<noteq> cmd_code E PIPE_CMD_READ_BUFFER
          \<and> aps_cmd (read_aps32 E (params_addr s) (host s)) \<noteq> cmd_code E PIPE_CMD_WRITE_BUFFER \<longrightarrow>
            pipe_dev_write E s (reg_offset E PIPE_REG_ACCESS_PARAMS) v
              = Returns (s\<lparr>channel := ucast (aps_channel (read_aps32 E (params_addr s) (host s))),
                           size_reg := aps_size (read_aps32 E (params_addr s) (host s)),
                           address := ucast (aps_address (read_aps32 E (params_addr s) (host s)))\<rparr>))
     \<and> (params_addr s \<noteq> 0 \<and> aps_flags (read_aps32 E (params_addr s) (host s)) \<noteq> 0
          \<and> aps_cmd (read_aps64 E (params_addr s) (host s)) \<noteq> cmd_code E PIPE_CMD_READ_BUFFER
          \<and> aps_cmd (read_aps64 E (params_addr s) (host s)) \<noteq> cmd_code E PIPE_CMD_WRITE_BUFFER \<longrightarrow>
            pipe_dev_write E s (reg_offset E PIPE_REG_ACCESS_PARAMS) v
              = Returns (s\<lparr>channel := aps_channel (read_aps64 E (params_addr s) (host s)),
                           size_reg := aps_size (read_aps64 E (params_addr s) (host s)),
                           address := aps_address (read_aps64 E (params_addr s) (host s))\<rparr>))"
  using assms
  by (simp add: pipe_dev_write_ACCESS_PARAMS write_ACCESS_PARAMS_def Let_def)

theorem access_params_ignored_witness:
  "distinct_regs demo_env
   \<and> pipe_dev_write demo_env dev_opened 0x20 0 = Returns dev_opened
   \<and> pipe_dev_write demo_env (dev_params32 3) 0x20 0
       = Returns ((dev_params32 3)\<lparr>channel := 3, size_reg := 4, address := 0x2000\<rparr>)
   \<and> pipe_dev_write demo_env (dev_params64 3) 0x20 0
       = Returns ((dev_params64 3)\<lparr>channel := 3, size_reg := 4, address := 0x2000\<rparr>)"
proof -
  note t = access_params_ignored [OF distinct_regs_demo]
  have 1: "pipe_dev_write demo_env dev_opened 0x20 0 = Returns dev_opened"
    using t [of dev_opened 0]
    by (simp add: dev_opened_def realized_def demo_env_def)
  have 2: "pipe_dev_write demo_env (dev_params32 3) 0x20 0
       = Returns ((dev_params32 3)\<lparr>channel := 3, size_reg := 4, address := 0x2000\<rparr>)"
    using t [of "dev_params32 3" 0]
    by (simp add: demo_struct_def dev_params32_def dev_opened_def realized_def demo_host0_def
          demo_env_def)
  have 3: "pipe_dev_write demo_env (dev_params64 3) 0x20 0
       = Returns ((dev_params64 3)\<lparr>channel := 3, size_reg := 4, address := 0x2000\<rparr>)"
    using t [of "dev_params64 3" 0]
    by (simp add: demo_struct_def dev_params64_def dev_opened_def realized_def demo_host0_def
          demo_env_def)
  from distinct_regs_demo 1 2 3 show ?thesis by blast
qed

subsection \<open>The states the device reaches\<close>

text \<open>
  Every operation of the device that returns keeps the state well formed, so every
  state that a run reaches from the realized device is well formed. The statements
  above assume of a state that the list from the current head ends in \<open>NULL\<close>,
  that the fast-path slots point to live objects and that the table points to live
  objects with the right channel id: all three hold in every well-formed state.
\<close>

lemma pipe_list_same_next:
  fixes o1 o2 :: HwPipe
  shows "pipe_list h p rs \<Longrightarrow> h r = Some o1 \<Longrightarrow> next o2 = next o1 \<Longrightarrow>
    pipe_list (h(r \<mapsto> o2)) p rs"
proof (induction rs arbitrary: p)
  case Nil
  then show ?case by simp
next
  case (Cons a rs)
  let ?H = "h(r \<mapsto> o2)"
  from Cons.prems(1) obtain oa :: HwPipe where p: "p = Some a" and oa: "h a = Some oa"
    and tl: "pipe_list h (next oa) rs"
    by (auto split: option.splits)
  have b: "pipe_list ?H (next oa) rs" by (rule Cons.IH [OF tl Cons.prems(2,3)])
  show ?case
  proof (cases "a = r")
    case True
    with oa Cons.prems(2) have "oa = o1" by simp
    with b Cons.prems(3) have "pipe_list ?H (next o2) rs" by simp
    moreover have "?H a = Some o2" using True by simp
    ultimately show ?thesis using p by (subst pipe_list_Cons) blast
  next
    case False
    then have "?H a = Some oa" using oa by simp
    with b p show ?thesis by (subst pipe_list_Cons) blast
  qed
qed

lemma pipe_list_from:
  "pipe_list h p rs \<Longrightarrow> r \<in> set rs \<Longrightarrow>
   \<exists>sfx. pipe_list h (Some r) sfx \<and> set sfx \<subseteq> set rs"
proof (induction rs arbitrary: p)
  case Nil
  then show ?case by simp
next
  case (Cons a rs)
  from Cons.prems(1) obtain oa :: HwPipe where p: "p = Some a" and oa: "h a = Some oa"
    and tl: "pipe_list h (next oa) rs"
    by (auto split: option.splits)
  show ?case
  proof (cases "r = a")
    case True
    with Cons.prems(1) p have "pipe_list h (Some r) (a # rs)" by simp
    then show ?thesis by blast
  next
    case False
    with Cons.prems(2) have "r \<in> set rs" by simp
    from Cons.IH [OF tl this] show ?thesis by auto
  qed
qed

lemma head_in_list:
  assumes "pipe_list h s rs" "head_in p rs"
  shows "\<exists>sfx. pipe_list h p sfx \<and> set sfx \<subseteq> set rs"
proof (cases p)
  case None
  then have "pipe_list h p [] \<and> set [] \<subseteq> set rs" by simp
  then show ?thesis by (rule exI)
next
  case (Some r)
  with assms(2) have "r \<in> set rs" by (simp add: head_in_def)
  from pipe_list_from [OF assms(1) this] Some show ?thesis by simp
qed

lemma pipe_list_next_head_in:
  fixes o' :: HwPipe
  assumes "pipe_list h p rs" "r \<in> set rs" "h r = Some o'"
  shows "head_in (next o') rs"
proof -
  from pipe_list_from [OF assms(1,2)] obtain sfx
    where s: "pipe_list h (Some r) sfx" and sub: "set sfx \<subseteq> set rs" by blast
  from s assms(3) obtain tl where sfx: "sfx = r # tl" and t: "pipe_list h (next o') tl"
    by (cases sfx) auto
  show ?thesis
  proof (cases tl)
    case Nil
    with t show ?thesis by (simp add: head_in_def)
  next
    case (Cons a as)
    with t have "next o' = Some a" by simp
    with Cons sfx sub show ?thesis by (auto simp: head_in_def)
  qed
qed

lemma head_in_head: "pipe_list h p rs \<Longrightarrow> head_in p rs"
  by (cases rs) (auto simp: head_in_def)

text \<open>An update of one object that keeps its \<open>next\<close> and its channel id.\<close>

lemma wf_touch:
  fixes o1 o2 :: HwPipe
  assumes wf: "wf_list s rs"
    and live: "hw_pipes s r = Some o1"
    and nx: "next o2 = next o1" and ch: "HwPipe.channel o2 = HwPipe.channel o1"
    and h: "hw_pipes s' = (hw_pipes s)(r \<mapsto> o2)"
    and sv: "save_pipes s' = save_pipes s"
    and hd: "head_in (pipes s') rs"
    and c1: "cache_pipe s' = cache_pipe s \<or> cache_pipe s' = Some r \<or> cache_pipe s' = None"
    and c2: "cache_pipe_64bit s' = cache_pipe_64bit s \<or> cache_pipe_64bit s' = cache_pipe s
             \<or> cache_pipe_64bit s' = Some r \<or> cache_pipe_64bit s' = None"
    and tb: "pipes_by_channel s' = pipes_by_channel s"
  shows "wf_list s' rs"
proof -
  from wf have l: "pipe_list (hw_pipes s) (save_pipes s) rs" by (simp add: wf_list_def)
  have l': "pipe_list (hw_pipes s') (save_pipes s') rs"
    unfolding h sv by (rule pipe_list_same_next [OF l live nx])
  have d: "dom (hw_pipes s') = dom (hw_pipes s)" using live h by auto
  have v: "\<And>p. valid_ptr (hw_pipes s) p \<Longrightarrow> valid_ptr (hw_pipes s') p"
    using h by (auto simp: valid_ptr_def split: option.splits)
  have vr: "valid_ptr (hw_pipes s') (Some r)" using h by (simp add: valid_ptr_def)
  have vn: "valid_ptr (hw_pipes s') None" by (simp add: valid_ptr_def)
  from wf have v1: "valid_ptr (hw_pipes s) (cache_pipe s)"
    and v2: "valid_ptr (hw_pipes s) (cache_pipe_64bit s)" by (simp_all add: wf_list_def)
  from c1 v [OF v1] vr vn have w1: "valid_ptr (hw_pipes s') (cache_pipe s')" by auto
  from c2 v [OF v1] v [OF v2] vr vn have w2: "valid_ptr (hw_pipes s') (cache_pipe_64bit s')" by auto
  from wf have t: "table_ok s" by (simp add: wf_list_def)
  have t': "table_ok s'"
    unfolding table_ok_def
  proof (intro allI impI)
    fix c x assume "pipes_by_channel s' c = Some x"
    with tb t obtain ox :: HwPipe where ox: "hw_pipes s x = Some ox" "HwPipe.channel ox = c"
      by (auto simp: table_ok_def)
    show "\<exists>o'. hw_pipes s' x = Some o' \<and> HwPipe.channel o' = c"
    proof (cases "x = r")
      case True
      with ox live ch h show ?thesis by simp
    next
      case False
      with ox h show ?thesis by simp
    qed
  qed
  from wf have "finite (dom (hw_pipes s))" by (simp add: wf_list_def)
  with d l' hd w1 w2 t' show ?thesis by (simp add: wf_list_def)
qed

lemma wf_same:
  assumes wf: "wf_list s rs"
    and h: "hw_pipes s' = hw_pipes s"
    and sv: "save_pipes s' = save_pipes s"
    and hd: "head_in (pipes s') rs"
    and c1: "cache_pipe s' = cache_pipe s \<or> cache_pipe s' = None"
    and c2: "cache_pipe_64bit s' = cache_pipe_64bit s \<or> cache_pipe_64bit s' = cache_pipe s
             \<or> cache_pipe_64bit s' = None"
    and tb: "pipes_by_channel s' = pipes_by_channel s"
  shows "wf_list s' rs"
proof -
  have vn: "valid_ptr (hw_pipes s') None" by (simp add: valid_ptr_def)
  from wf h have v1: "valid_ptr (hw_pipes s') (cache_pipe s)"
    and v2: "valid_ptr (hw_pipes s') (cache_pipe_64bit s)" by (simp_all add: wf_list_def)
  from c1 v1 vn have w1: "valid_ptr (hw_pipes s') (cache_pipe s')" by auto
  from c2 v1 v2 vn have w2: "valid_ptr (hw_pipes s') (cache_pipe_64bit s')" by auto
  from wf h tb have "table_ok s'" by (simp add: wf_list_def table_ok_def)
  with wf h sv hd w1 w2 show ?thesis by (simp add: wf_list_def)
qed

lemma wf_head: "wf_list s rs \<Longrightarrow> head_in (pipes s) rs"
  by (simp add: wf_list_def)

lemma wf_scan:
  assumes wf: "wf_list s rs"
  shows "\<exists>sfx. pipe_list (hw_pipes s) (pipes s) sfx \<and> set sfx \<subseteq> set rs
           \<and> next_pipe_to_wake (hw_pipes s) (pipes s) = Some (find (signaled (hw_pipes s)) sfx)"
proof -
  from wf have "pipe_list (hw_pipes s) (save_pipes s) rs" "head_in (pipes s) rs"
    by (simp_all add: wf_list_def)
  from head_in_list [OF this] obtain sfx
    where a: "pipe_list (hw_pipes s) (pipes s) sfx" and b: "set sfx \<subseteq> set rs" by blast
  from a have "next_pipe_to_wake (hw_pipes s) (pipes s) = Some (find (signaled (hw_pipes s)) sfx)"
    by (rule next_pipe_to_wake_list)
  with a b show ?thesis by blast
qed

lemma find_in: "find P xs = Some x \<Longrightarrow> x \<in> set xs"
  by (auto simp: find_Some_iff)

text \<open>The register reads and the host callbacks keep the list as it is.\<close>

lemma wf_read_CHANNEL:
  assumes wf: "wf_list s rs" and rd: "read_CHANNEL s = Returns (v, s')"
  shows "wf_list s' rs"
proof -
  from wf have l: "pipe_list (hw_pipes s) (save_pipes s) rs"
    and v1: "valid_ptr (hw_pipes s) (cache_pipe s)"
    and v2: "valid_ptr (hw_pipes s) (cache_pipe_64bit s)" by (simp_all add: wf_list_def)
  note hd = wf_head [OF wf]
  show ?thesis
  proof (cases "cache_pipe_64bit s")
    case (Some c)
    with v2 obtain o' :: HwPipe where o: "hw_pipes s c = Some o'"
      by (auto simp: valid_ptr_def)
    from rd Some o have s': "s' = s\<lparr>cache_pipe_64bit := None,
        hw_pipes := (hw_pipes s)(c \<mapsto> o'\<lparr>wanted := 0\<rparr>), wakes := ucast (wanted o')\<rparr>"
      by (auto simp: read_CHANNEL_def get_and_clear_cache_pipe_def with_pipe_def
            get_and_clear_pipe_wanted_def)
    show ?thesis
      by (rule wf_touch [OF wf o, where ?o2.0 = "o'\<lparr>wanted := 0\<rparr>"]) (simp_all add: s' hd)
  next
    case None
    note n64 = None
    show ?thesis
    proof (cases "cache_pipe s")
      case (Some c)
      with v1 obtain o' :: HwPipe where o: "hw_pipes s c = Some o'"
        by (auto simp: valid_ptr_def)
      from rd Some n64 o have s': "s' = s\<lparr>cache_pipe := None,
          hw_pipes := (hw_pipes s)(c \<mapsto> o'\<lparr>wanted := 0\<rparr>), wakes := ucast (wanted o')\<rparr>"
        by (auto simp: read_CHANNEL_def get_and_clear_cache_pipe_def with_pipe_def
              get_and_clear_pipe_wanted_def)
      show ?thesis
        by (rule wf_touch [OF wf o, where ?o2.0 = "o'\<lparr>wanted := 0\<rparr>"]) (simp_all add: s' hd)
    next
      case None
      from wf_scan [OF wf] obtain sfx
        where a: "pipe_list (hw_pipes s) (pipes s) sfx" and b: "set sfx \<subseteq> set rs"
          and sc: "next_pipe_to_wake (hw_pipes s) (pipes s) = Some (find (signaled (hw_pipes s)) sfx)"
        by blast
      show ?thesis
      proof (cases "find (signaled (hw_pipes s)) sfx")
        case None
        with rd n64 \<open>cache_pipe s = None\<close> sc
        have e: "hw_pipes s' = hw_pipes s" "save_pipes s' = save_pipes s"
          "pipes s' = save_pipes s" "cache_pipe s' = None"
          "cache_pipe_64bit s' = cache_pipe_64bit s" "pipes_by_channel s' = pipes_by_channel s"
          by (auto simp: read_CHANNEL_def get_and_clear_cache_pipe_def Let_def split: if_splits)
        from l have "head_in (save_pipes s) rs" by (rule head_in_head)
        with e show ?thesis by (intro wf_same [OF wf]) simp_all
      next
        case (Some p)
        then have "p \<in> set sfx" by (rule find_in)
        with b have pr: "p \<in> set rs" by auto
        with l have "hw_pipes s p \<noteq> None" by (rule pipe_list_live)
        then obtain o' :: HwPipe where o: "hw_pipes s p = Some o'" by auto
        from rd n64 \<open>cache_pipe s = None\<close> sc Some o
        have e: "hw_pipes s' = (hw_pipes s)(p \<mapsto> o'\<lparr>wanted := 0\<rparr>)" "save_pipes s' = save_pipes s"
          "pipes s' = next o'" "cache_pipe s' = None"
          "cache_pipe_64bit s' = cache_pipe_64bit s" "pipes_by_channel s' = pipes_by_channel s"
          by (auto simp: read_CHANNEL_def get_and_clear_cache_pipe_def Let_def with_pipe_def
                get_and_clear_pipe_wanted_def split: if_splits)
        from l pr o have "head_in (next o') rs" by (rule pipe_list_next_head_in)
        with e show ?thesis
          by (intro wf_touch [OF wf o, where ?o2.0 = "o'\<lparr>wanted := 0\<rparr>"]) simp_all
      qed
    qed
  qed
qed

lemma wf_read_CHANNEL_HIGH:
  assumes wf: "wf_list s rs" and rd: "read_CHANNEL_HIGH E s = Returns (v, s')"
  shows "wf_list s' rs"
proof -
  from wf have l: "pipe_list (hw_pipes s) (save_pipes s) rs" by (simp add: wf_list_def)
  note hd = wf_head [OF wf]
  show ?thesis
  proof (cases "cache_pipe_64bit s")
    case (Some c)
    with rd have e: "hw_pipes s' = hw_pipes s" "save_pipes s' = save_pipes s"
      "pipes s' = pipes s" "cache_pipe s' = cache_pipe s"
      "cache_pipe_64bit s' = cache_pipe_64bit s" "pipes_by_channel s' = pipes_by_channel s"
      by (auto simp: read_CHANNEL_HIGH_def get_and_clear_cache_pipe_def Let_def with_pipe_def
            split: if_splits option.splits)
    with hd show ?thesis by (intro wf_same [OF wf]) simp_all
  next
    case None
    note n64 = None
    show ?thesis
    proof (cases "cache_pipe s")
      case (Some c)
      with rd n64 have e: "hw_pipes s' = hw_pipes s" "save_pipes s' = save_pipes s"
        "pipes s' = pipes s" "cache_pipe s' = None"
        "cache_pipe_64bit s' = cache_pipe s" "pipes_by_channel s' = pipes_by_channel s"
        by (auto simp: read_CHANNEL_HIGH_def get_and_clear_cache_pipe_def Let_def with_pipe_def
              split: if_splits option.splits)
      with hd show ?thesis by (intro wf_same [OF wf]) simp_all
    next
      case None
      from wf_scan [OF wf] obtain sfx
        where a: "pipe_list (hw_pipes s) (pipes s) sfx" and b: "set sfx \<subseteq> set rs"
          and sc: "next_pipe_to_wake (hw_pipes s) (pipes s) = Some (find (signaled (hw_pipes s)) sfx)"
        by blast
      show ?thesis
      proof (cases "find (signaled (hw_pipes s)) sfx")
        case None
        with rd n64 \<open>cache_pipe s = None\<close> sc
        have e: "hw_pipes s' = hw_pipes s" "save_pipes s' = save_pipes s"
          "pipes s' = save_pipes s" "cache_pipe s' = None"
          "cache_pipe_64bit s' = cache_pipe_64bit s" "pipes_by_channel s' = pipes_by_channel s"
          by (auto simp: read_CHANNEL_HIGH_def get_and_clear_cache_pipe_def Let_def split: if_splits)
        from l have "head_in (save_pipes s) rs" by (rule head_in_head)
        with e show ?thesis by (intro wf_same [OF wf]) simp_all
      next
        case (Some p)
        then have "p \<in> set sfx" by (rule find_in)
        with b have pr: "head_in (Some p) rs" by (auto simp: head_in_def)
        from rd n64 \<open>cache_pipe s = None\<close> sc Some
        have e: "hw_pipes s' = hw_pipes s" "save_pipes s' = save_pipes s"
          "pipes s' = Some p" "cache_pipe s' = None"
          "cache_pipe_64bit s' = cache_pipe_64bit s" "pipes_by_channel s' = pipes_by_channel s"
          by (auto simp: read_CHANNEL_HIGH_def get_and_clear_cache_pipe_def Let_def with_pipe_def
                split: if_splits option.splits)
        with pr show ?thesis by (intro wf_same [OF wf]) simp_all
      qed
    qed
  qed
qed

lemma wf_pipe_dev_read:
  assumes wf: "wf_list s rs" and rd: "pipe_dev_read E s offset = Returns (v, s')"
  shows "wf_list s' rs"
proof (cases "offset = reg_offset E PIPE_REG_STATUS")
  case True
  with rd wf show ?thesis by (simp add: pipe_dev_read_def)
next
  case False
  note f1 = False
  show ?thesis
  proof (cases "offset = reg_offset E PIPE_REG_CHANNEL")
    case True
    with rd f1 have "read_CHANNEL s = Returns (v, s')" by (simp add: pipe_dev_read_def)
    with wf show ?thesis by (rule wf_read_CHANNEL)
  next
    case False
    note f2 = False
    show ?thesis
    proof (cases "offset = reg_offset E PIPE_REG_CHANNEL_HIGH")
      case True
      with rd f1 f2 have "read_CHANNEL_HIGH E s = Returns (v, s')" by (simp add: pipe_dev_read_def)
      with wf show ?thesis by (rule wf_read_CHANNEL_HIGH)
    next
      case False
      with rd f1 f2 have "s' = s" by (simp add: pipe_dev_read_def split: if_splits)
      with wf show ?thesis by simp
    qed
  qed
qed

lemma wf_wake:
  assumes wf: "wf_list s rs" and rd: "qemu2_android_pipe_wake s r f = Returns s'"
  shows "wf_list s' rs"
proof -
  from rd obtain o' :: HwPipe where o: "hw_pipes s r = Some o'"
    by (auto simp: qemu2_android_pipe_wake_def with_pipe_def split: option.splits)
  with rd have e: "hw_pipes s' = (hw_pipes s)(r \<mapsto> o'\<lparr>wanted := wanted o' OR ucast f\<rparr>)"
    "save_pipes s' = save_pipes s" "pipes s' = pipes s"
    "cache_pipe s' = cache_pipe s \<or> cache_pipe s' = Some r"
    "cache_pipe_64bit s' = cache_pipe_64bit s" "pipes_by_channel s' = pipes_by_channel s"
    by (auto simp: qemu2_android_pipe_wake_def with_pipe_def Let_def set_pipe_wanted_bits_def
          set_cache_pipe_def split: if_splits)
  with wf_head [OF wf] show ?thesis
    by (intro wf_touch [OF wf o, where ?o2.0 = "o'\<lparr>wanted := wanted o' OR ucast f\<rparr>"]) auto
qed

lemma wf_close:
  assumes wf: "wf_list s rs" and rd: "qemu2_android_pipe_close E s r = Returns s'"
  shows "wf_list s' rs"
proof -
  from rd obtain o' :: HwPipe where o: "hw_pipes s r = Some o'"
    by (auto simp: qemu2_android_pipe_close_def with_pipe_def split: option.splits)
  show ?thesis
  proof (cases "closed o' = 0")
    case True
    let ?s1 = "s\<lparr>hw_pipes := (hw_pipes s)(r \<mapsto> o'\<lparr>closed := 1\<rparr>)\<rparr>"
    from rd o True have w: "qemu2_android_pipe_wake ?s1 r (wake_flag E PIPE_WAKE_CLOSED) = Returns s'"
      by (simp add: qemu2_android_pipe_close_def with_pipe_def)
    have "wf_list ?s1 rs"
      using wf_head [OF wf]
      by (intro wf_touch [OF wf o, where ?o2.0 = "o'\<lparr>closed := 1\<rparr>"]) simp_all
    then show ?thesis using w by (rule wf_wake)
  next
    case False
    with rd o have "s' = s" by (simp add: qemu2_android_pipe_close_def with_pipe_def)
    with wf show ?thesis by simp
  qed
qed

text \<open>The commands: \<open>OPEN\<close> and \<open>CLOSE\<close> change the list, the others do not.\<close>

lemma wf_only_regs: "wf_list s rs \<Longrightarrow> only_regs s s' \<Longrightarrow> wf_list s' rs"
  by (simp add: wf_list_def table_ok_def only_regs_def)

lemma only_regs_POLL: "doCommand_POLL E s p = Returns s' \<Longrightarrow> only_regs s s'"
  by (auto simp: doCommand_POLL_def with_pipe_def only_regs_def split: option.splits prod.splits)

lemma only_regs_READ_BUFFER: "doCommand_READ_BUFFER E s p = Returns s' \<Longrightarrow> only_regs s s'"
  by (auto simp: doCommand_READ_BUFFER_def with_pipe_def only_regs_def
        split: option.splits prod.splits)

lemma only_regs_WRITE_BUFFER: "doCommand_WRITE_BUFFER E s p = Returns s' \<Longrightarrow> only_regs s s'"
  by (auto simp: doCommand_WRITE_BUFFER_def with_pipe_def only_regs_def
        split: option.splits prod.splits)

lemma wf_WAKE_ON:
  assumes wf: "wf_list s rs" and rd: "doCommand_WAKE_ON E s p f = Returns s'"
  shows "wf_list s' rs"
proof -
  from rd obtain r and o' :: HwPipe where p: "p = Some r" and o: "hw_pipes s r = Some o'"
    by (auto simp: doCommand_WAKE_ON_def with_pipe_def split: option.splits)
  show ?thesis
  proof (cases "(ucast (wanted o') :: 32 word) AND wake_flag E f = 0")
    case True
    let ?o2 = "o'\<lparr>wanted := ucast ((ucast (wanted o') :: 32 word) OR wake_flag E f)\<rparr>"
    from rd p o True have e: "hw_pipes s' = (hw_pipes s)(r \<mapsto> ?o2)"
      "save_pipes s' = save_pipes s" "pipes s' = pipes s" "cache_pipe s' = cache_pipe s"
      "cache_pipe_64bit s' = cache_pipe_64bit s" "pipes_by_channel s' = pipes_by_channel s"
      by (auto simp: doCommand_WAKE_ON_def with_pipe_def Let_def)
    with wf_head [OF wf] show ?thesis
      by (intro wf_touch [OF wf o, where ?o2.0 = ?o2]) simp_all
  next
    case False
    with rd p o have "only_regs s s'"
      by (auto simp: doCommand_WAKE_ON_def with_pipe_def only_regs_def)
    with wf show ?thesis by (rule wf_only_regs)
  qed
qed

lemma wf_OPEN:
  assumes wf: "wf_list s rs"
    and fresh: "hw_pipes s (g_malloc0 E (hw_pipes s)) = None"
    and rd: "doCommand_OPEN E s None = Returns s'"
  shows "well_formed s'"
proof -
  let ?h = "hw_pipes s"
  let ?n = "g_malloc0 E ?h"
  from wf have l: "pipe_list ?h (save_pipes s) rs" and hd: "head_in (pipes s) rs"
    and fin: "finite (dom ?h)"
    and v1: "valid_ptr ?h (cache_pipe s)" and v2: "valid_ptr ?h (cache_pipe_64bit s)"
    and t: "table_ok s"
    by (simp_all add: wf_list_def)
  from head_in_list [OF l hd] obtain sfx
    where a: "pipe_list ?h (pipes s) sfx" by blast
  from rd obtain o' :: HwPipe where
    e: "hw_pipes s' = ?h(?n \<mapsto> o')" "next o' = pipes s" "HwPipe.channel o' = channel s"
      "pipes s' = Some ?n" "save_pipes s' = Some ?n"
      "cache_pipe s' = cache_pipe s" "cache_pipe_64bit s' = cache_pipe_64bit s"
      "pipes_by_channel s' = (pipes_by_channel s)(channel s \<mapsto> ?n)"
    by (auto simp: doCommand_OPEN_def pipe_new_def pipe_new0_def Let_def split: prod.splits)
  have nn: "?n \<notin> set sfx"
  proof
    assume "?n \<in> set sfx"
    with a have "?h ?n \<noteq> None" by (rule pipe_list_live)
    with fresh show False by simp
  qed
  then have "pipe_list (?h(?n \<mapsto> o')) (pipes s) sfx" using a by (simp add: pipe_list_upd)
  then have "pipe_list (hw_pipes s') (next o') sfx" using e by simp
  moreover have "hw_pipes s' ?n = Some o'" using e by simp
  ultimately have l': "pipe_list (hw_pipes s') (save_pipes s') (?n # sfx)"
    unfolding e(5) by (subst pipe_list_Cons) blast
  have hd': "head_in (pipes s') (?n # sfx)" using e by (simp add: head_in_def)
  have fin': "finite (dom (hw_pipes s'))" using fin e by simp
  have v: "\<And>p. valid_ptr ?h p \<Longrightarrow> valid_ptr (hw_pipes s') p"
    using e by (auto simp: valid_ptr_def split: option.splits)
  have t': "table_ok s'"
    unfolding table_ok_def
  proof (intro allI impI)
    fix c x assume x: "pipes_by_channel s' c = Some x"
    show "\<exists>o'. hw_pipes s' x = Some o' \<and> HwPipe.channel o' = c"
    proof (cases "c = channel s")
      case True
      with x e show ?thesis by simp
    next
      case False
      with x e have "pipes_by_channel s c = Some x" by simp
      with t obtain ox :: HwPipe where ox: "?h x = Some ox" "HwPipe.channel ox = c"
        by (auto simp: table_ok_def)
      with fresh have "x \<noteq> ?n" by auto
      with ox e show ?thesis by simp
    qed
  qed
  from fin' l' hd' v [OF v1] v [OF v2] t' e have "wf_list s' (?n # sfx)"
    by (simp add: wf_list_def)
  then show ?thesis unfolding well_formed_def by (rule exI)
qed

lemma CLOSE_others:
  "doCommand_CLOSE E s (Some t) = Returns s' \<Longrightarrow> x \<noteq> t \<Longrightarrow>
   map_option HwPipe.channel (hw_pipes s' x) = map_option HwPipe.channel (hw_pipes s x)"
  by (auto simp: doCommand_CLOSE_def with_pipe_def and_then_def store_pnode_def pipe_free_def
        clear_cache_pipe_if_equal_def Let_def
        split: option.splits prod.splits pnode.splits if_splits)

lemma wf_CLOSE:
  assumes wf: "wf_list s rs"
    and tb: "pipes_by_channel s c = Some t"
    and rd: "doCommand_CLOSE E s (Some t) = Returns s'"
  shows "well_formed s'"
proof -
  let ?h = "hw_pipes s"
  from wf have l: "pipe_list ?h (save_pipes s) rs" and hd: "head_in (pipes s) rs"
    and fin: "finite (dom ?h)"
    and v1: "valid_ptr ?h (cache_pipe s)" and v2: "valid_ptr ?h (cache_pipe_64bit s)"
    and t: "table_ok s"
    by (simp_all add: wf_list_def)
  from t tb obtain o' :: HwPipe where o: "?h t = Some o'"
    by (auto simp: table_ok_def)
  from head_in_list [OF l hd] obtain sfx
    where a: "pipe_list ?h (pipes s) sfx" by blast
  show ?thesis
  proof (cases "t \<in> set sfx")
    case False
    from CLOSE_absent [OF o a False, of E] rd
    have "s' = s\<lparr>status := err_code E PIPE_ERROR_INVAL\<rparr>" by simp
    then have "only_regs s s'" by (simp add: only_regs_def)
    with wf have "wf_list s' rs" by (rule wf_only_regs)
    then show ?thesis unfolding well_formed_def by (rule exI)
  next
    case True
    from CLOSE_found [OF o a True, of E] rd
    have l': "pipe_list (hw_pipes s') (pipes s') (remove1 t sfx)"
      and sv: "save_pipes s' = pipes s'"
      and tb': "pipes_by_channel s' = (pipes_by_channel s)(HwPipe.channel o' := None)"
      and c1: "cache_pipe s' = (if cache_pipe s = Some t then None else cache_pipe s)"
      and c2: "cache_pipe_64bit s' = (if cache_pipe_64bit s = Some t then None else cache_pipe_64bit s)"
      and gone: "hw_pipes s' t = None"
      by auto
    note others = CLOSE_others [OF rd]
    have live: "\<And>x. x \<noteq> t \<Longrightarrow> ?h x \<noteq> None \<Longrightarrow> hw_pipes s' x \<noteq> None"
    proof -
      fix x assume "x \<noteq> t" "?h x \<noteq> None"
      with others [of x] show "hw_pipes s' x \<noteq> None" by (cases "hw_pipes s' x") auto
    qed
    have "dom (hw_pipes s') \<subseteq> dom ?h"
    proof
      fix x assume x: "x \<in> dom (hw_pipes s')"
      with gone have "x \<noteq> t" by auto
      with others [of x] x show "x \<in> dom ?h" by (cases "?h x") auto
    qed
    with fin have fin': "finite (dom (hw_pipes s'))" by (rule finite_subset [rotated])
    have w1: "valid_ptr (hw_pipes s') (cache_pipe s')"
      using v1 c1 live by (auto simp: valid_ptr_def split: option.splits if_splits)
    have w2: "valid_ptr (hw_pipes s') (cache_pipe_64bit s')"
      using v2 c2 live by (auto simp: valid_ptr_def split: option.splits if_splits)
    have t': "table_ok s'"
      unfolding table_ok_def
    proof (intro allI impI)
      fix k x assume x: "pipes_by_channel s' k = Some x"
      with tb' have k: "k \<noteq> HwPipe.channel o'" and "pipes_by_channel s k = Some x"
        by (auto split: if_splits)
      with t obtain ox :: HwPipe where ox: "?h x = Some ox" "HwPipe.channel ox = k"
        by (auto simp: table_ok_def)
      with k o have "x \<noteq> t" by auto
      from others [OF this] ox show "\<exists>o'. hw_pipes s' x = Some o' \<and> HwPipe.channel o' = k"
        by (cases "hw_pipes s' x") auto
    qed
    from l' have "head_in (pipes s') (remove1 t sfx)" by (rule head_in_head)
    with fin' l' sv w1 w2 t' have "wf_list s' (remove1 t sfx)" by (simp add: wf_list_def)
    then show ?thesis unfolding well_formed_def by (rule exI)
  qed
qed

lemma wf_well_formed: "wf_list s rs \<Longrightarrow> well_formed s"
  unfolding well_formed_def by (rule exI)

lemma wf_switch:
  assumes w: "wf_list s rs"
    and fresh: "hw_pipes s (g_malloc0 E (hw_pipes s)) = None"
    and p: "p = pipes_by_channel s (channel s)"
    and known: "command = cmd_code E PIPE_CMD_OPEN \<or> p \<noteq> None"
    and rd: "doCommand_switch E s command p = Returns s'"
  shows "well_formed s'"
proof -
  have OPEN: "doCommand_OPEN E s p = Returns s' \<Longrightarrow> well_formed s'"
  proof (cases p)
    case None
    assume "doCommand_OPEN E s p = Returns s'"
    with None have "doCommand_OPEN E s None = Returns s'" by simp
    with w fresh show ?thesis by (rule wf_OPEN)
  next
    case (Some r)
    assume "doCommand_OPEN E s p = Returns s'"
    with Some have "s' = s\<lparr>status := err_code E PIPE_ERROR_INVAL\<rparr>"
      by (simp add: doCommand_OPEN_def)
    then have "only_regs s s'" by (simp add: only_regs_def)
    with w show ?thesis by (blast intro: wf_well_formed wf_only_regs)
  qed
  have CLOSE: "doCommand_CLOSE E s p = Returns s' \<Longrightarrow> well_formed s'"
  proof -
    assume c: "doCommand_CLOSE E s p = Returns s'"
    then obtain r where r: "p = Some r"
      by (cases p) (simp_all add: doCommand_CLOSE_def with_pipe_def)
    with p have tb: "pipes_by_channel s (channel s) = Some r" by simp
    from c r have "doCommand_CLOSE E s (Some r) = Returns s'" by simp
    with w tb show ?thesis by (rule wf_CLOSE)
  qed
  have POLL: "doCommand_POLL E s p = Returns s' \<Longrightarrow> well_formed s'"
    using w by (blast intro: wf_well_formed wf_only_regs only_regs_POLL)
  have READ: "doCommand_READ_BUFFER E s p = Returns s' \<Longrightarrow> well_formed s'"
    using w by (blast intro: wf_well_formed wf_only_regs only_regs_READ_BUFFER)
  have WRITE: "doCommand_WRITE_BUFFER E s p = Returns s' \<Longrightarrow> well_formed s'"
    using w by (blast intro: wf_well_formed wf_only_regs only_regs_WRITE_BUFFER)
  have WAKE: "\<And>f. doCommand_WAKE_ON E s p f = Returns s' \<Longrightarrow> well_formed s'"
    using w by (blast intro: wf_well_formed wf_WAKE_ON)
  have none: "Returns s = Returns s' \<Longrightarrow> well_formed s'"
    using w by (auto intro: wf_well_formed)
  show ?thesis
  proof (cases "command = cmd_code E PIPE_CMD_OPEN")
    case True
    with rd show ?thesis by (simp add: doCommand_switch_def OPEN)
  next
    case f1: False
    show ?thesis
    proof (cases "command = cmd_code E PIPE_CMD_CLOSE")
      case True
      with rd f1 show ?thesis by (simp add: doCommand_switch_def CLOSE)
    next
      case f2: False
      show ?thesis
      proof (cases "command = cmd_code E PIPE_CMD_POLL")
        case True
        with rd f1 f2 show ?thesis by (simp add: doCommand_switch_def POLL)
      next
        case f3: False
        show ?thesis
        proof (cases "command = cmd_code E PIPE_CMD_READ_BUFFER")
          case True
          with rd f1 f2 f3 show ?thesis by (simp add: doCommand_switch_def READ)
        next
          case f4: False
          show ?thesis
          proof (cases "command = cmd_code E PIPE_CMD_WRITE_BUFFER")
            case True
            with rd f1 f2 f3 f4 show ?thesis by (simp add: doCommand_switch_def WRITE)
          next
            case f5: False
            from rd f1 f2 f3 f4 f5
            have "doCommand_WAKE_ON E s p PIPE_WAKE_READ = Returns s'
                \<or> doCommand_WAKE_ON E s p PIPE_WAKE_WRITE = Returns s' \<or> Returns s = Returns s'"
              by (simp add: doCommand_switch_def split: if_splits)
            with WAKE none show ?thesis by blast
          qed
        qed
      qed
    qed
  qed
qed

lemma wf_doCommand:
  assumes wf: "well_formed s"
    and fresh: "hw_pipes s (g_malloc0 E (hw_pipes s)) = None"
    and rd: "pipeDevice_doCommand E s command = Returns s'"
  shows "well_formed s'"
proof -
  from wf obtain rs where w: "wf_list s rs" by (auto simp: well_formed_def)
  let ?p = "pipes_by_channel s (channel s)"
  have st: "\<And>x. well_formed (s\<lparr>status := x\<rparr>)"
    by (rule wf_well_formed [OF wf_only_regs [OF w]]) (simp add: only_regs_def)
  show ?thesis
  proof (cases "command \<noteq> cmd_code E PIPE_CMD_OPEN \<and> ?p = None")
    case True
    with rd have "s' = s\<lparr>status := err_code E PIPE_ERROR_INVAL\<rparr>"
      by (simp add: pipeDevice_doCommand_def)
    with st show ?thesis by simp
  next
    case False
    then have known: "command = cmd_code E PIPE_CMD_OPEN \<or> ?p \<noteq> None" by auto
    from rd False obtain c where c: "pipe_is_closed (hw_pipes s) ?p = Some c"
      by (cases "pipe_is_closed (hw_pipes s) ?p") (simp_all add: pipeDevice_doCommand_def Let_def)
    show ?thesis
    proof (cases "c \<and> command \<noteq> cmd_code E PIPE_CMD_CLOSE")
      case True
      with rd False c have "s' = s\<lparr>status := err_code E PIPE_ERROR_IO\<rparr>"
        by (simp add: pipeDevice_doCommand_def Let_def)
      with st show ?thesis by simp
    next
      case c2: False
      with rd False c have "doCommand_switch E s command ?p = Returns s'"
        by (simp add: pipeDevice_doCommand_def Let_def)
      from wf_switch [OF w fresh refl known this] show ?thesis .
    qed
  qed
qed

lemma well_formed_regs: "well_formed s \<Longrightarrow> only_regs s s' \<Longrightarrow> well_formed s'"
  by (auto simp: well_formed_def intro: wf_only_regs)

lemma wf_command_then:
  assumes wf: "well_formed s"
    and fresh: "hw_pipes s (g_malloc0 E (hw_pipes s)) = None"
    and s1: "only_regs s s1"
    and rd: "and_then (pipeDevice_doCommand E s1 cmd) (\<lambda>s2. Returns (s2\<lparr>host := f s2\<rparr>)) = Returns s'"
  shows "well_formed s'"
proof -
  from rd obtain s2 where c: "pipeDevice_doCommand E s1 cmd = Returns s2"
    and s': "s' = s2\<lparr>host := f s2\<rparr>"
    by (cases "pipeDevice_doCommand E s1 cmd") (auto simp: and_then_def)
  from wf s1 have w1: "well_formed s1" by (rule well_formed_regs)
  from s1 fresh have "hw_pipes s1 (g_malloc0 E (hw_pipes s1)) = None" by (simp add: only_regs_def)
  with w1 have "well_formed s2" using c by (rule wf_doCommand)
  moreover have "only_regs s2 s'" using s' by (simp add: only_regs_def)
  ultimately show ?thesis by (rule well_formed_regs)
qed

lemma wf_write_ACCESS_PARAMS:
  assumes wf: "well_formed s"
    and fresh: "hw_pipes s (g_malloc0 E (hw_pipes s)) = None"
    and rd: "write_ACCESS_PARAMS E s = Returns s'"
  shows "well_formed s'"
proof (cases "params_addr s = 0")
  case True
  with rd wf show ?thesis by (simp add: write_ACCESS_PARAMS_def)
next
  case False
  note nz = False
  let ?a32 = "read_aps32 E (params_addr s) (host s)"
  let ?a64 = "read_aps64 E (params_addr s) (host s)"
  show ?thesis
  proof (cases "aps_flags ?a32 = 0")
    case True
    let ?s1 = "s\<lparr>channel := ucast (aps_channel ?a32), size_reg := aps_size ?a32,
                 address := ucast (aps_address ?a32)\<rparr>"
    have r1: "only_regs s ?s1" by (simp add: only_regs_def)
    show ?thesis
    proof (cases "aps_cmd ?a32 \<noteq> cmd_code E PIPE_CMD_READ_BUFFER
                  \<and> aps_cmd ?a32 \<noteq> cmd_code E PIPE_CMD_WRITE_BUFFER")
      case True
      with rd nz \<open>aps_flags ?a32 = 0\<close> have "s' = ?s1"
        by (simp add: write_ACCESS_PARAMS_def Let_def)
      with wf r1 show ?thesis by (simp add: well_formed_regs)
    next
      case False
      with rd nz \<open>aps_flags ?a32 = 0\<close>
      have "and_then (pipeDevice_doCommand E ?s1 (aps_cmd ?a32))
              (\<lambda>s2. Returns (s2\<lparr>host := write_aps32 E (params_addr s2)
                                   (?a32\<lparr>aps_result := status s2\<rparr>) (host s2)\<rparr>)) = Returns s'"
        by (simp add: write_ACCESS_PARAMS_def Let_def)
      with wf fresh r1 show ?thesis by (rule wf_command_then)
    qed
  next
    case False
    note f64 = False
    let ?s1 = "s\<lparr>channel := aps_channel ?a64, size_reg := aps_size ?a64,
                 address := aps_address ?a64\<rparr>"
    have r1: "only_regs s ?s1" by (simp add: only_regs_def)
    show ?thesis
    proof (cases "aps_cmd ?a64 \<noteq> cmd_code E PIPE_CMD_READ_BUFFER
                  \<and> aps_cmd ?a64 \<noteq> cmd_code E PIPE_CMD_WRITE_BUFFER")
      case True
      with rd nz f64 have "s' = ?s1"
        by (simp add: write_ACCESS_PARAMS_def Let_def)
      with wf r1 show ?thesis by (simp add: well_formed_regs)
    next
      case False
      with rd nz f64
      have "and_then (pipeDevice_doCommand E ?s1 (aps_cmd ?a64))
              (\<lambda>s2. Returns (s2\<lparr>host := write_aps64 E (params_addr s2)
                                   (?a64\<lparr>aps_result := status s2\<rparr>) (host s2)\<rparr>)) = Returns s'"
        by (simp add: write_ACCESS_PARAMS_def Let_def)
      with wf fresh r1 show ?thesis by (rule wf_command_then)
    qed
  qed
qed

text \<open>A step and a run.\<close>

lemma wf_pipe_dev_write:
  assumes wf: "well_formed s"
    and fresh: "hw_pipes s (g_malloc0 E (hw_pipes s)) = None"
    and rd: "pipe_dev_write E s offset v = Returns s'"
  shows "well_formed s'"
proof -
  have "pipe_dev_write E s offset v = pipeDevice_doCommand E s (ucast v)
      \<or> pipe_dev_write E s offset v = write_ACCESS_PARAMS E s
      \<or> (\<exists>s1. pipe_dev_write E s offset v = Returns s1 \<and> only_regs s s1)"
    by (simp add: pipe_dev_write_def only_regs_def)
  then consider (cmd) "pipeDevice_doCommand E s (ucast v) = Returns s'"
    | (aps) "write_ACCESS_PARAMS E s = Returns s'"
    | (reg) "only_regs s s'"
    using rd by auto
  then show ?thesis
  proof cases
    case cmd
    with wf fresh show ?thesis by (rule wf_doCommand)
  next
    case aps
    with wf fresh show ?thesis by (rule wf_write_ACCESS_PARAMS)
  next
    case reg
    with wf show ?thesis by (rule well_formed_regs)
  qed
qed

lemma wf_step:
  assumes wf: "well_formed s"
    and fresh: "hw_pipes s (g_malloc0 E (hw_pipes s)) = None"
    and st: "step E s e = Returns (seen, s')"
  shows "well_formed s'"
proof (cases e)
  case (Guest_write offset v)
  with st have "pipe_dev_write E s offset v = Returns s'"
    by (cases "pipe_dev_write E s offset v") (simp_all add: step_def and_then_def)
  with wf fresh show ?thesis by (rule wf_pipe_dev_write)
next
  case (Guest_read offset)
  with st obtain v where r: "pipe_dev_read E s offset = Returns (v, s')"
    by (cases "pipe_dev_read E s offset") (auto simp: step_def and_then_def)
  from wf obtain rs where "wf_list s rs" by (auto simp: well_formed_def)
  then have "wf_list s' rs" using r by (rule wf_pipe_dev_read)
  then show ?thesis by (rule wf_well_formed)
next
  case (Host_wake r f)
  with st have w: "qemu2_android_pipe_wake s r f = Returns s'"
    by (cases "qemu2_android_pipe_wake s r f") (simp_all add: step_def and_then_def)
  from wf obtain rs where "wf_list s rs" by (auto simp: well_formed_def)
  then have "wf_list s' rs" using w by (rule wf_wake)
  then show ?thesis by (rule wf_well_formed)
next
  case (Host_close r)
  with st have w: "qemu2_android_pipe_close E s r = Returns s'"
    by (cases "qemu2_android_pipe_close E s r") (simp_all add: step_def and_then_def)
  from wf obtain rs where "wf_list s rs" by (auto simp: well_formed_def)
  then have "wf_list s' rs" using w by (rule wf_close)
  then show ?thesis by (rule wf_well_formed)
next
  case Irq_level
  with st wf show ?thesis by (simp add: step_def)
qed

lemma well_formed_finite: "well_formed s \<Longrightarrow> finite (dom (hw_pipes s))"
  by (auto simp: well_formed_def wf_list_def)

lemma wf_run:
  assumes fresh: "fresh_allocator E"
  shows "well_formed s \<Longrightarrow> run E s es = Returns (seen, s') \<Longrightarrow> well_formed s'"
proof (induction es arbitrary: s seen)
  case Nil
  then show ?case by simp
next
  case (Cons e es)
  from Cons.prems(2) obtain seen1 s1 seen2 where st: "step E s e = Returns (seen1, s1)"
    and rn: "run E s1 es = Returns (seen2, s')"
    by (auto simp: and_then_def split: outcome.splits prod.splits)
  from Cons.prems(1) have "finite (dom (hw_pipes s))" by (rule well_formed_finite)
  with fresh have "hw_pipes s (g_malloc0 E (hw_pipes s)) = None" by (simp add: fresh_allocator_def)
  with Cons.prems(1) have "well_formed s1" using st by (rule wf_step)
  then show ?case using rn by (rule Cons.IH)
qed

text \<open>
  The realized device is well formed, and an allocator that returns the least free
  address is one that never returns an address in use.
\<close>

lemma well_formed_realized: "well_formed (realized w)"
proof -
  have "wf_list (realized w) []"
    by (simp add: wf_list_def realized_def head_in_def valid_ptr_def table_ok_def)
  then show ?thesis by (rule wf_well_formed)
qed

lemma least_allocator:
  "fresh_allocator (E\<lparr>g_malloc0 := \<lambda>h. LEAST r. h r = None\<rparr>)"
proof -
  have "h (LEAST r. h r = None) = None" if "finite (dom h)" for h :: pipe_heap
  proof -
    from that obtain r where "r \<notin> dom h" using ex_new_if_finite [OF infinite_UNIV_nat] by blast
    then have "h r = None" by auto
    then show ?thesis by (rule LeastI)
  qed
  then show ?thesis by (simp add: fresh_allocator_def)
qed

text \<open>
  Every state reached by a run of guest and host events from the realized device is
  well formed, when the allocator never returns an address in use.
\<close>

theorem reachable_well_formed:
  assumes "fresh_allocator E" and "run E (realized w) es = Returns (seen, s)"
  shows "well_formed s"
  using assms(1) well_formed_realized assms(2) by (rule wf_run)

text \<open>What a well-formed state gives to the statements above.\<close>

lemma well_formed_list: "well_formed s \<Longrightarrow> \<exists>rs. pipe_list (hw_pipes s) (pipes s) rs"
proof -
  assume "well_formed s"
  then obtain rs where "pipe_list (hw_pipes s) (save_pipes s) rs" "head_in (pipes s) rs"
    by (auto simp: well_formed_def wf_list_def)
  from head_in_list [OF this] show ?thesis by blast
qed

lemma well_formed_table:
  "well_formed s \<Longrightarrow> pipes_by_channel s c = Some r \<Longrightarrow>
   \<exists>o'. hw_pipes s r = Some o' \<and> HwPipe.channel o' = c"
  by (auto simp: well_formed_def wf_list_def table_ok_def)

lemma well_formed_caches:
  "well_formed s \<Longrightarrow>
   valid_ptr (hw_pipes s) (cache_pipe s) \<and> valid_ptr (hw_pipes s) (cache_pipe_64bit s)"
  by (auto simp: well_formed_def wf_list_def)

end
